theory Spec2Isabelle
  imports Complex_Main "HOL-Library.Char_ord" "HOL-Library.List_Lexorder"
begin

section \<open>Event-registration information extraction: data model\<close>

text \<open>
  The development embeds the entity-extraction pipeline of the repository
  (\<^verbatim>\<open>data_model.py\<close>, \<^verbatim>\<open>Name_Entity_Recogniztion.py\<close>, \<^verbatim>\<open>info_processing.py\<close>,
  \<^verbatim>\<open>text_process.py\<close>, \<^verbatim>\<open>extraction_engine.py\<close>) as HOL functions.

  Python strings are modelled as \<^typ>\<open>string\<close>: a character of the model is one of the
  code points 0..255, and the character predicates and case conversions below are
  those of Python on all of them. Python integers are \<^typ>\<open>int\<close>. Exceptions are values
  of the type \<open>error\<close>.
\<close>

datatype error = ValueError string | IndexError string | AttributeError string

datatype ExtractionConfidence = HIGH | MEDIUM | LOW | UNKNOWN

datatype EntityType = PERSON | EVENT | LOCATION | DATE | ORGANIZATION

text \<open>The \<^verbatim>\<open>.value\<close> attribute of the enum \<^verbatim>\<open>ExtractionConfidence\<close>: a string.\<close>

fun conf_value :: "ExtractionConfidence \<Rightarrow> string" where
  "conf_value HIGH = ''HIGH''"
| "conf_value MEDIUM = ''MEDIUM''"
| "conf_value LOW = ''LOW''"
| "conf_value UNKNOWN = ''UNKNOWN''"

record ExtractedEntity =
  entityType :: EntityType
  valueText :: string
  confidence :: ExtractionConfidence
  startPosition :: int
  endPosition :: int
  originalText :: string

text \<open>
  An argument of a dataclass constructor is any Python object; for the two enum
  fields the model records whether the object is a member of the enum.
\<close>

datatype 'a pyobj = Member 'a | NotMember

subsection \<open>String helpers of the Python runtime\<close>

text \<open>
  The order on characters is that of their code points. A class of characters is given
  by a list of intervals; \<open>in_ranges c rs\<close> tests the character \<open>c\<close>.
\<close>

fun in_ranges :: "char \<Rightarrow> (char \<times> char) list \<Rightarrow> bool" where
  "in_ranges c [] = False"
| "in_ranges c ((lo, hi) # rs) = (if lo \<le> c \<and> c \<le> hi then True else in_ranges c rs)"

text \<open>
  \<^verbatim>\<open>str.isspace\<close> on one character, which is also the whitespace of \<^verbatim>\<open>str.strip\<close> and
  \<^verbatim>\<open>str.split\<close>: TAB..CR, FS..US, the space, NEL (U+0085) and the no-break space
  (U+00A0).
\<close>

definition py_isspace :: "char \<Rightarrow> bool" where
  "py_isspace c \<longleftrightarrow>
     in_ranges c [(CHR 0x09, CHR 0x0D), (CHR 0x1C, CHR 0x20), (CHR 0x85, CHR 0x85), (CHR 0xA0, CHR 0xA0)]"

definition py_lstrip :: "string \<Rightarrow> string" where
  "py_lstrip s = dropWhile py_isspace s"

definition py_rstrip :: "string \<Rightarrow> string" where
  "py_rstrip s = rev (dropWhile py_isspace (rev s))"

definition py_strip :: "string \<Rightarrow> string" where
  "py_strip s = py_rstrip (py_lstrip s)"

subsection \<open>\<^verbatim>\<open>ExtractedEntity.__post_init__\<close>\<close>

text \<open>
  The dataclass constructor stores the six fields and then runs \<^verbatim>\<open>__post_init__\<close>;
  the four checks run in the order of the source and the first that fails raises.
\<close>

definition ExtractedEntity_init ::
  "EntityType pyobj \<Rightarrow> string \<Rightarrow> ExtractionConfidence pyobj \<Rightarrow> int \<Rightarrow> int \<Rightarrow> string
     \<Rightarrow> error + ExtractedEntity" where
  "ExtractedEntity_init ty v conf s e orig =
     (case ty of
        NotMember \<Rightarrow> Inl (ValueError ''Invalid entity type'')
      | Member t \<Rightarrow>
          if v = [] \<or> py_strip v = [] then Inl (ValueError ''Entity value cannot be empty'')
          else if s < 0 \<or> e < s then Inl (ValueError ''Invalid position values'')
          else (case conf of
                  NotMember \<Rightarrow> Inl (ValueError ''Invalid confidence level'')
                | Member c \<Rightarrow>
                    Inr \<lparr> entityType = t, valueText = v, confidence = c,
                          startPosition = s, endPosition = e, originalText = orig \<rparr>))"

section \<open>Overlap resolver (\<^verbatim>\<open>_removeDuplicatesAndOverlaps\<close>)\<close>

text \<open>The half-open overlap test of the inner loop, candidate first.\<close>

definition overlaps :: "ExtractedEntity \<Rightarrow> ExtractedEntity \<Rightarrow> bool" where
  "overlaps entity existingEntity \<longleftrightarrow>
     startPosition entity < endPosition existingEntity \<and>
     endPosition entity > startPosition existingEntity"

text \<open>
  The inner \<^verbatim>\<open>for existingEntity in list(cleaned)\<close> with its \<^verbatim>\<open>break\<close>: the first accepted
  entity that overlaps the candidate, if any.
\<close>

fun first_overlap :: "ExtractedEntity \<Rightarrow> ExtractedEntity list \<Rightarrow> ExtractedEntity option" where
  "first_overlap entity [] = None"
| "first_overlap entity (x # xs) = (if overlaps entity x then Some x else first_overlap entity xs)"

text \<open>
  One iteration of the outer loop. The comparison \<^verbatim>\<open>n_conf > e_conf\<close> is between the
  \<^verbatim>\<open>.value\<close> strings of the two enum members, that is Python's lexicographic order on
  strings; \<^verbatim>\<open>cleaned.remove\<close> deletes the first element equal to its argument.
\<close>

definition resolve_step :: "ExtractedEntity list \<Rightarrow> ExtractedEntity \<Rightarrow> ExtractedEntity list" where
  "resolve_step cleaned entity =
     (case first_overlap entity cleaned of
        None \<Rightarrow> cleaned @ [entity]
      | Some existingEntity \<Rightarrow>
          if conf_value (confidence entity) > conf_value (confidence existingEntity)
          then remove1 existingEntity cleaned @ [entity]
          else cleaned)"

text \<open>\<^verbatim>\<open>list.sort(key=...)\<close> is stable, as \<^const>\<open>sort_key\<close> is.\<close>

definition removeDuplicatesAndOverlaps :: "ExtractedEntity list \<Rightarrow> ExtractedEntity list" where
  "removeDuplicatesAndOverlaps entities =
     (if entities = [] then entities
      else foldl resolve_step [] (sort_key startPosition entities))"

text \<open>No two entities at different places of the list overlap.\<close>

fun nonoverlapping :: "ExtractedEntity list \<Rightarrow> bool" where
  "nonoverlapping [] = True"
| "nonoverlapping (x # xs) = ((\<forall>y \<in> set xs. \<not> overlaps x y) \<and> nonoverlapping xs)"

text \<open>The ordinal of the specification: HIGH > MEDIUM > LOW > UNKNOWN.\<close>

fun tier :: "ExtractionConfidence \<Rightarrow> nat" where
  "tier HIGH = 3"
| "tier MEDIUM = 2"
| "tier LOW = 1"
| "tier UNKNOWN = 0"

text \<open>
  The loop invariant of the resolver: the accepted entities do not overlap and are in
  ascending order of their start positions.
\<close>

definition resolver_inv :: "ExtractedEntity list \<Rightarrow> bool" where
  "resolver_inv cleaned \<longleftrightarrow> nonoverlapping cleaned \<and> sorted (map startPosition cleaned)"

subsection \<open>More string helpers of the Python runtime\<close>

text \<open>
  \<^verbatim>\<open>str.isupper\<close> and \<^verbatim>\<open>str.islower\<close> on one character. The upper-case letters are A..Z
  and U+00C0..U+00DE without the multiplication sign U+00D7; the lower-case letters are
  a..z, the ordinal indicators U+00AA and U+00BA, the micro sign U+00B5 and
  U+00DF..U+00FF without the division sign U+00F7.
\<close>

definition py_isupper_char :: "char \<Rightarrow> bool" where
  "py_isupper_char c \<longleftrightarrow>
     in_ranges c [(CHR ''A'', CHR ''Z''), (CHR 0xC0, CHR 0xD6), (CHR 0xD8, CHR 0xDE)]"

definition py_islower_char :: "char \<Rightarrow> bool" where
  "py_islower_char c \<longleftrightarrow>
     in_ranges c [(CHR ''a'', CHR ''z''), (CHR 0xAA, CHR 0xAA), (CHR 0xB5, CHR 0xB5),
                  (CHR 0xBA, CHR 0xBA), (CHR 0xDF, CHR 0xF6), (CHR 0xF8, CHR 0xFF)]"

text \<open>
  The lower case of an upper-case letter is 32 code points above it: the letter with
  its bit of weight 32 set, the sixth argument of \<^const>\<open>Char\<close> (the least significant bit
  comes first). \<^verbatim>\<open>str.lower\<close> changes no other character.
\<close>

definition py_lower_char :: "char \<Rightarrow> char" where
  "py_lower_char c =
     (if py_isupper_char c
      then (case c of Char b0 b1 b2 b3 b4 b5 b6 b7 \<Rightarrow> Char b0 b1 b2 b3 b4 True b6 b7)
      else c)"

text \<open>
  The upper case of one character, where it is one character of the model: a..z and
  U+00E0..U+00FE without U+00F7 lose their bit of weight 32. The upper case of the sharp
  s U+00DF is the two letters SS (\<^verbatim>\<open>str.upper\<close>) or Ss (\<^verbatim>\<open>str.capitalize\<close>); the upper
  cases of the micro sign U+00B5 and of U+00FF are not among the code points 0..255, so
  that the case conversions below are those of Python on the strings without these two
  characters (\<open>upper_closed\<close>), and keep the two characters otherwise.
\<close>

definition has_upper_char :: "char \<Rightarrow> bool" where
  "has_upper_char c \<longleftrightarrow>
     in_ranges c [(CHR ''a'', CHR ''z''), (CHR 0xE0, CHR 0xF6), (CHR 0xF8, CHR 0xFE)]"

definition py_upper_char :: "char \<Rightarrow> char" where
  "py_upper_char c =
     (if has_upper_char c
      then (case c of Char b0 b1 b2 b3 b4 b5 b6 b7 \<Rightarrow> Char b0 b1 b2 b3 b4 False b6 b7)
      else c)"

definition upper_closed :: "string \<Rightarrow> bool" where
  "upper_closed s \<longleftrightarrow> list_all (\<lambda>c. c \<noteq> CHR 0xB5 \<and> c \<noteq> CHR 0xFF) s"

text \<open>\<^verbatim>\<open>str.lower\<close> and \<^verbatim>\<open>str.upper\<close>.\<close>

definition py_lower :: "string \<Rightarrow> string" where
  "py_lower s = map py_lower_char s"

definition py_upper :: "string \<Rightarrow> string" where
  "py_upper s = concat (map (\<lambda>c. if c = CHR 0xDF then ''SS'' else [py_upper_char c]) s)"

text \<open>\<^verbatim>\<open>s.startswith(p)\<close> and the substring test \<^verbatim>\<open>sub in s\<close>.\<close>

fun startswith :: "string \<Rightarrow> string \<Rightarrow> bool" where
  "startswith s [] = True"
| "startswith [] (p # ps) = False"
| "startswith (c # cs) (p # ps) = (c = p \<and> startswith cs ps)"

fun py_in :: "string \<Rightarrow> string \<Rightarrow> bool" where
  "py_in sub [] = (sub = [])"
| "py_in sub (c # cs) = (startswith (c # cs) sub \<or> py_in sub cs)"

text \<open>
  The slice \<^verbatim>\<open>s[a:b]\<close>: a negative index counts from the end, and both indices are
  clamped to the string.
\<close>

definition slice_index :: "nat \<Rightarrow> int \<Rightarrow> nat" where
  "slice_index n i = (if i < 0 then nat (max 0 (int n + i)) else min n (nat i))"

definition py_slice :: "'a list \<Rightarrow> int \<Rightarrow> int \<Rightarrow> 'a list" where
  "py_slice s a b = (let i = slice_index (length s) a; j = slice_index (length s) b
                     in take (j - i) (drop i s))"

section \<open>Context scorer (\<^verbatim>\<open>_enhanceWithContext\<close>, \<^verbatim>\<open>_analyzeEntityContext\<close>)\<close>

text \<open>\<^verbatim>\<open>sum(1 for keyword in keywords if keyword in context)\<close>\<close>

definition keyword_count :: "string list \<Rightarrow> string \<Rightarrow> int" where
  "keyword_count keywords context = int (length (filter (\<lambda>keyword. py_in keyword context) keywords))"

definition analyzeEntityContext :: "ExtractedEntity \<Rightarrow> string \<Rightarrow> int" where
  "analyzeEntityContext entity text =
     (let contextWindow = 50;
          start = max 0 (startPosition entity - contextWindow);
          end' = min (int (length text)) (endPosition entity + contextWindow);
          context = py_lower (py_slice text start end')
      in case entityType entity of
           PERSON \<Rightarrow> keyword_count
             [''registered'', ''participant'', ''attendee'', ''mr'', ''mrs'', ''dr''] context
         | EVENT \<Rightarrow> keyword_count
             [''registered for'', ''attending'', ''conference'', ''summit''] context
         | LOCATION \<Rightarrow> keyword_count [''in'', ''at'', ''held in'', ''located''] context
         | DATE \<Rightarrow> keyword_count [''on'', ''scheduled'', ''happening''] context
         | ORGANIZATION \<Rightarrow> 0)"

text \<open>
  \<^verbatim>\<open>_enhanceWithContext\<close> assigns to the \<^verbatim>\<open>confidence\<close> attribute of the objects of its
  list, in place, and returns the list it was given. The objects live in a store; a
  reference is an index into the store, and the Python list is a list of references,
  in which one object may occur several times. \<open>enhance_entity\<close> is the loop body on
  the value of one object, \<open>enhance_at\<close> the loop body on the store.
\<close>

type_synonym ref = nat

type_synonym store = "ExtractedEntity list"

definition enhance_entity :: "string \<Rightarrow> ExtractedEntity \<Rightarrow> ExtractedEntity" where
  "enhance_entity text entity =
     (if analyzeEntityContext entity text > 0 then
        (if confidence entity = LOW then entity\<lparr>confidence := MEDIUM\<rparr>
         else if confidence entity = MEDIUM then entity\<lparr>confidence := HIGH\<rparr>
         else entity)
      else entity)"

definition enhance_at :: "string \<Rightarrow> store \<Rightarrow> ref \<Rightarrow> store" where
  "enhance_at text h r = h[r := enhance_entity text (h ! r)]"

text \<open>The function returns its argument list; the second component is the store it leaves.\<close>

definition enhanceWithContext :: "ref list \<Rightarrow> string \<Rightarrow> store \<Rightarrow> ref list \<times> store" where
  "enhanceWithContext entities text h = (entities, foldl (enhance_at text) h entities)"

section \<open>Entity merger (\<^verbatim>\<open>mergeEntities\<close>)\<close>

fun confidenceToScore :: "ExtractionConfidence \<Rightarrow> int" where
  "confidenceToScore HIGH = 3"
| "confidenceToScore MEDIUM = 2"
| "confidenceToScore LOW = 1"
| "confidenceToScore UNKNOWN = 0"

text \<open>The dictionary key \<^verbatim>\<open>(entity.entityType, entity.value.lower())\<close>.\<close>

definition merge_key :: "ExtractedEntity \<Rightarrow> EntityType \<times> string" where
  "merge_key entity = (entityType entity, py_lower (valueText entity))"

text \<open>
  A Python dictionary keeps its keys in the order of their first insertion, and the
  second loop of \<^verbatim>\<open>mergeEntities\<close> iterates in that order: the dictionary \<^verbatim>\<open>grouped\<close> is an
  association list. \<open>group_append\<close> is the body of the first loop.
\<close>

fun group_append :: "'k \<Rightarrow> 'v \<Rightarrow> ('k \<times> 'v list) list \<Rightarrow> ('k \<times> 'v list) list" where
  "group_append k v [] = [(k, [v])]"
| "group_append k v ((k', vs) # g) =
     (if k = k' then (k', vs @ [v]) # g else (k', vs) # group_append k v g)"

definition group_entities :: "ExtractedEntity list \<Rightarrow> ((EntityType \<times> string) \<times> ExtractedEntity list) list" where
  "group_entities entities = foldl (\<lambda>grouped entity. group_append (merge_key entity) entity grouped) [] entities"

text \<open>
  \<^verbatim>\<open>max(xs, key=f)\<close>: the first element with the greatest key; a \<^verbatim>\<open>ValueError\<close> on the
  empty list.
\<close>

fun max_from :: "('a \<Rightarrow> int) \<Rightarrow> 'a \<Rightarrow> 'a list \<Rightarrow> 'a" where
  "max_from f best [] = best"
| "max_from f best (x # xs) = max_from f (if f x > f best then x else best) xs"

definition py_max_key :: "('a \<Rightarrow> int) \<Rightarrow> 'a list \<Rightarrow> error + 'a" where
  "py_max_key f xs = (case xs of [] \<Rightarrow> Inl (ValueError ''max() arg is an empty sequence'')
                               | x # rest \<Rightarrow> Inr (max_from f x rest))"

definition merge_group :: "ExtractedEntity list \<Rightarrow> error + ExtractedEntity" where
  "merge_group entity_list =
     (case entity_list of
        [only] \<Rightarrow> Inr only
      | _ \<Rightarrow> py_max_key (\<lambda>x. confidenceToScore (confidence x)) entity_list)"

fun merge_groups :: "('k \<times> ExtractedEntity list) list \<Rightarrow> error + ExtractedEntity list" where
  "merge_groups [] = Inr []"
| "merge_groups ((k, entity_list) # g) =
     (case merge_group entity_list of
        Inl err \<Rightarrow> Inl err
      | Inr best \<Rightarrow> (case merge_groups g of Inl err \<Rightarrow> Inl err | Inr merged \<Rightarrow> Inr (best # merged)))"

definition mergeEntities :: "ExtractedEntity list \<Rightarrow> error + ExtractedEntity list" where
  "mergeEntities entities =
     (if entities = [] then Inr [] else merge_groups (group_entities entities))"

text \<open>
  Invariant of the dictionary \<^verbatim>\<open>grouped\<close>: the keys are distinct, no group is empty and
  every member of a group has the key of the group. \<open>group_members\<close> collects the
  members of all groups.
\<close>

definition groups_ok :: "((EntityType \<times> string) \<times> ExtractedEntity list) list \<Rightarrow> bool" where
  "groups_ok g \<longleftrightarrow> distinct (map fst g) \<and> (\<forall>p \<in> set g. snd p \<noteq> [] \<and> (\<forall>x \<in> set (snd p). merge_key x = fst p))"

definition group_members :: "('k \<times> 'v list) list \<Rightarrow> 'v set" where
  "group_members g = (\<Union>p \<in> set g. set (snd p))"

section \<open>Structured record and confidence aggregator\<close>

text \<open>
  \<^verbatim>\<open>datetime.now()\<close> reads the clock; the value read is a parameter of the functions
  that call it.
\<close>

record datetime =
  year :: int
  month :: int
  day :: int
  hour :: int
  minute :: int
  second :: int
  microsecond :: int

text \<open>
  \<^verbatim>\<open>EventRegistrationInfo\<close>. The field \<^verbatim>\<open>originalText\<close> is \<open>sourceText\<close> here, the name
  being taken by the field of \<^typ>\<open>ExtractedEntity\<close>.
\<close>

record EventRegistrationInfo =
  participantName :: "string option"
  eventName :: "string option"
  location :: "string option"
  date :: "string option"
  extractedEntities :: "ExtractedEntity list"
  extractionTimestamp :: datetime
  sourceText :: string
  overallConfidence :: ExtractionConfidence

text \<open>
  The truth value of an \<^verbatim>\<open>Optional[str]\<close>, as tested by \<^verbatim>\<open>if info.participantName\<close> and
  \<^verbatim>\<open>if not info.participantName\<close>: \<^verbatim>\<open>None\<close> and the empty string are false.
\<close>

definition truthy :: "string option \<Rightarrow> bool" where
  "truthy field = (case field of None \<Rightarrow> False | Some s \<Rightarrow> s \<noteq> [])"

text \<open>The dictionary \<^verbatim>\<open>confidenceValues\<close> of \<^verbatim>\<open>_calculateOverallConfidence\<close>.\<close>

fun confidenceValues :: "ExtractionConfidence \<Rightarrow> int" where
  "confidenceValues HIGH = 3"
| "confidenceValues MEDIUM = 2"
| "confidenceValues LOW = 1"
| "confidenceValues UNKNOWN = 0"

text \<open>
  \<^verbatim>\<open>_calculateOverallConfidence\<close>. The source divides two integers into a float and
  compares the float with 2.5, 2.0 and 1.5. The division is correctly rounded and the
  three thresholds are floats, so each comparison agrees with the comparison of the
  exact quotient for every list of fewer than \<open>2^51\<close> entities; the model computes with
  the exact quotient, a rational number.
\<close>

definition calculateOverallConfidence :: "EventRegistrationInfo \<Rightarrow> ExtractionConfidence" where
  "calculateOverallConfidence info =
     (if extractedEntities info = [] then UNKNOWN
      else
        let filledFields =
              (if truthy (participantName info) then 1 else 0) +
              (if truthy (eventName info) then 1 else 0) +
              (if truthy (location info) then 1 else 0) +
              (if truthy (date info) then (1::int) else 0);
            totalConfidence = sum_list (map (\<lambda>entity. confidenceValues (confidence entity))
                                          (extractedEntities info));
            averageConfidence =
              (if extractedEntities info \<noteq> []
               then rat_of_int totalConfidence / rat_of_int (int (length (extractedEntities info)))
               else 0)
        in if filledFields = 4 \<and> averageConfidence \<ge> 5 / 2 then HIGH
           else if filledFields \<ge> 3 \<and> averageConfidence \<ge> 2 then HIGH
           else if filledFields \<ge> 2 \<and> averageConfidence \<ge> 3 / 2 then MEDIUM
           else if filledFields \<ge> 1 then LOW
           else UNKNOWN)"

subsection \<open>The aggregator as the specification words it\<close>

text \<open>
  \<open>spec_filledCount\<close>: the number of the four fields that are non-empty.
  \<open>spec_meanEntityScore\<close>: the mean of HIGH:3, MEDIUM:2, LOW:1, UNKNOWN:0 over the
  entities of the record (0 when there is none, as \<^verbatim>\<open>averageConfidence\<close> in the source).
  \<open>spec_decision_table\<close>: the rows, first match wins.
\<close>

definition spec_filledCount :: "EventRegistrationInfo \<Rightarrow> nat" where
  "spec_filledCount info =
     length (filter truthy [participantName info, eventName info, location info, date info])"

definition spec_meanEntityScore :: "ExtractedEntity list \<Rightarrow> rat" where
  "spec_meanEntityScore entities =
     (if entities = [] then 0
      else of_nat (sum_list (map (\<lambda>e. tier (confidence e)) entities)) / of_nat (length entities))"

definition spec_decision_table :: "nat \<Rightarrow> rat \<Rightarrow> ExtractionConfidence" where
  "spec_decision_table filledCount mean =
     (if filledCount = 4 \<and> mean \<ge> 5 / 2 then HIGH
      else if filledCount \<ge> 3 \<and> mean \<ge> 2 then HIGH
      else if filledCount \<ge> 2 \<and> mean \<ge> 3 / 2 then MEDIUM
      else if filledCount \<ge> 1 then LOW
      else UNKNOWN)"

section \<open>The Python runtime: strings\<close>



text \<open>\<^verbatim>\<open>str.split()\<close> with no argument: the maximal runs of non-whitespace characters.\<close>

fun split_acc :: "string \<Rightarrow> string \<Rightarrow> string list" where
  "split_acc cur [] = (if cur = [] then [] else [rev cur])"
| "split_acc cur (c # cs) =
     (if py_isspace c then (if cur = [] then split_acc [] cs else rev cur # split_acc [] cs)
      else split_acc (c # cur) cs)"

definition py_split :: "string \<Rightarrow> string list" where
  "py_split s = split_acc [] s"

text \<open>\<^verbatim>\<open>s.split(sep)\<close> for a separator of one character: always at least one part.\<close>

fun split_on_acc :: "char \<Rightarrow> string \<Rightarrow> string \<Rightarrow> string list" where
  "split_on_acc sep cur [] = [rev cur]"
| "split_on_acc sep cur (c # cs) =
     (if c = sep then rev cur # split_on_acc sep [] cs else split_on_acc sep (c # cur) cs)"

definition py_split_on :: "char \<Rightarrow> string \<Rightarrow> string list" where
  "py_split_on sep s = split_on_acc sep [] s"

text \<open>\<^verbatim>\<open>sep.join(parts)\<close>\<close>

fun py_join :: "string \<Rightarrow> string list \<Rightarrow> string" where
  "py_join sep [] = []"
| "py_join sep [w] = w"
| "py_join sep (w # v # ws) = w @ sep @ py_join sep (v # ws)"

text \<open>
  \<^verbatim>\<open>str.capitalize\<close>, \<^verbatim>\<open>str.isalpha\<close>, \<^verbatim>\<open>str.isupper\<close> and \<^verbatim>\<open>str.islower\<close>. The last two
  hold of a string with at least one cased character and no cased character of the
  other case.
\<close>

definition py_capitalize :: "string \<Rightarrow> string" where
  "py_capitalize s =
     (case s of
        [] \<Rightarrow> []
      | c # cs \<Rightarrow> (if c = CHR 0xDF then ''Ss'' else [py_upper_char c]) @ map py_lower_char cs)"

definition py_isalpha_char :: "char \<Rightarrow> bool" where
  "py_isalpha_char c \<longleftrightarrow> py_isupper_char c \<or> py_islower_char c"

definition py_isalpha :: "string \<Rightarrow> bool" where
  "py_isalpha s \<longleftrightarrow> s \<noteq> [] \<and> list_all py_isalpha_char s"

definition py_isupper :: "string \<Rightarrow> bool" where
  "py_isupper s \<longleftrightarrow> list_ex py_isupper_char s \<and> \<not> list_ex py_islower_char s"

definition py_islower :: "string \<Rightarrow> bool" where
  "py_islower s \<longleftrightarrow> list_ex py_islower_char s \<and> \<not> list_ex py_isupper_char s"

text \<open>
  \<^verbatim>\<open>s.replace(old, new)\<close> for a non-empty \<^verbatim>\<open>old\<close>: the occurrences are replaced from the
  left, without overlap. The first argument counts the characters of an occurrence that
  remain to be dropped.
\<close>

fun replace_from :: "nat \<Rightarrow> string \<Rightarrow> string \<Rightarrow> string \<Rightarrow> string" where
  "replace_from skip old new [] = []"
| "replace_from skip old new (c # cs) =
     (case skip of
        Suc k \<Rightarrow> replace_from k old new cs
      | 0 \<Rightarrow> if startswith (c # cs) old
             then new @ replace_from (length old - 1) old new cs
             else c # replace_from 0 old new cs)"

definition py_replace :: "string \<Rightarrow> string \<Rightarrow> string \<Rightarrow> string" where
  "py_replace old new s = replace_from 0 old new s"

section \<open>The Python runtime: regular expressions\<close>

text \<open>
  The part of the module \<^verbatim>\<open>re\<close> that the patterns of the source use: literals, character
  sets with ranges and the classes \<^verbatim>\<open>\d\<close>, \<^verbatim>\<open>\s\<close>, \<^verbatim>\<open>\w\<close>, the dot, sequence,
  ordered alternation, greedy and lazy repetition, capturing groups, \<^verbatim>\<open>^\<close>, \<^verbatim>\<open>$\<close> and
  \<^verbatim>\<open>\b\<close>, with or without \<^verbatim>\<open>re.IGNORECASE\<close>. Matching is by backtracking in the order
  of the module: a greedy repetition tries one more iteration first, a lazy one tries
  to stop first, an alternation tries its left branch first.
\<close>

datatype citem = Single char | Range char char | Digit | Space | Word

datatype regex =
    Lit string
  | Chars bool "citem list"
  | AnyChar
  | Eps
  | Seq regex regex
  | Alt regex regex
  | Star regex
  | LazyStar regex
  | Group nat regex
  | Bol
  | Eol
  | WordB

text \<open>
  The state of a match attempt: the character before the current position, the text
  from the current position on, the position, and the spans of the groups closed so
  far (the most recent first).
\<close>

datatype mstate =
  MState (m_prev: "char option") (m_rest: string) (m_pos: int) (m_groups: "(nat \<times> int \<times> int) list")

definition in_range :: "char \<Rightarrow> char \<Rightarrow> char \<Rightarrow> bool" where
  "in_range lo hi c \<longleftrightarrow> lo \<le> c \<and> c \<le> hi"

text \<open>
  The classes \<^verbatim>\<open>\d\<close> (the decimal digits) and \<^verbatim>\<open>\w\<close> (the alphanumeric characters of
  \<^verbatim>\<open>str.isalnum\<close> and the underscore) of a pattern that is a \<^verbatim>\<open>str\<close>.
\<close>

definition is_digit :: "char \<Rightarrow> bool" where
  "is_digit c \<longleftrightarrow> in_ranges c [(CHR ''0'', CHR ''9'')]"

definition is_word :: "char \<Rightarrow> bool" where
  "is_word c \<longleftrightarrow>
     in_ranges c
       [(CHR ''0'', CHR ''9''), (CHR ''A'', CHR ''Z''), (CHR ''_'', CHR ''_''), (CHR ''a'', CHR ''z''),
        (CHR 0xAA, CHR 0xAA), (CHR 0xB2, CHR 0xB3), (CHR 0xB5, CHR 0xB5), (CHR 0xB9, CHR 0xBA),
        (CHR 0xBC, CHR 0xBE), (CHR 0xC0, CHR 0xD6), (CHR 0xD8, CHR 0xF6), (CHR 0xF8, CHR 0xFF)]"

text \<open>
  With \<^verbatim>\<open>re.IGNORECASE\<close> a literal matches a character of the same lower case, and a
  range matches a character that is in the range or whose lower case or upper case is
  (the upper cases of U+00B5 and U+00FF are above every range of the model).
\<close>

definition char_eq :: "bool \<Rightarrow> char \<Rightarrow> char \<Rightarrow> bool" where
  "char_eq ic c x = (if ic then py_lower_char c = py_lower_char x else c = x)"

fun item_match :: "bool \<Rightarrow> char \<Rightarrow> citem \<Rightarrow> bool" where
  "item_match ic c (Single x) = char_eq ic c x"
| "item_match ic c (Range lo hi) =
     (if in_range lo hi c then True
      else if ic then (if in_range lo hi (py_lower_char c) then True
                       else in_range lo hi (py_upper_char c))
      else False)"
| "item_match ic c Digit = is_digit c"
| "item_match ic c Space = py_isspace c"
| "item_match ic c Word = is_word c"

text \<open>
  The functions of the matcher are defined on a state given by its constructor, so
  that their equations apply to the states met during a match and to nothing else.
\<close>

fun lit_match :: "bool \<Rightarrow> string \<Rightarrow> mstate \<Rightarrow> mstate option" where
  "lit_match ic [] st = Some st"
| "lit_match ic (x # xs) (MState p [] n g) = None"
| "lit_match ic (x # xs) (MState p (c # cs) n g) =
     (if char_eq ic c x then lit_match ic xs (MState (Some c) cs (n + 1) g) else None)"

text \<open>
  Repetition. The first argument bounds the number of iterations; it is the text that
  remains, and every iteration that is followed has consumed a character.
\<close>

fun star_g :: "'f list \<Rightarrow> (mstate \<Rightarrow> (mstate \<Rightarrow> 'r option) \<Rightarrow> 'r option) \<Rightarrow> mstate
    \<Rightarrow> (mstate \<Rightarrow> 'r option) \<Rightarrow> 'r option" where
  "star_g [] f (MState p s n g) k = k (MState p s n g)"
| "star_g (x # fuel) f (MState p s n g) k =
     (case f (MState p s n g) (\<lambda>st'. if n < m_pos st' then star_g fuel f st' k else None) of
        Some r \<Rightarrow> Some r
      | None \<Rightarrow> k (MState p s n g))"

fun star_l :: "'f list \<Rightarrow> (mstate \<Rightarrow> (mstate \<Rightarrow> 'r option) \<Rightarrow> 'r option) \<Rightarrow> mstate
    \<Rightarrow> (mstate \<Rightarrow> 'r option) \<Rightarrow> 'r option" where
  "star_l [] f (MState p s n g) k = k (MState p s n g)"
| "star_l (x # fuel) f (MState p s n g) k =
     (case k (MState p s n g) of
        Some r \<Rightarrow> Some r
      | None \<Rightarrow> f (MState p s n g) (\<lambda>st'. if n < m_pos st' then star_l fuel f st' k else None))"

fun word_boundary :: "char option \<Rightarrow> string \<Rightarrow> bool" where
  "word_boundary p s \<longleftrightarrow>
     (case p of None \<Rightarrow> False | Some c \<Rightarrow> is_word c) \<noteq>
     (case s of [] \<Rightarrow> False | c # cs \<Rightarrow> is_word c)"

text \<open>
  The matcher, in continuation-passing style: \<open>rmatch ic r st k\<close> matches \<open>r\<close> from the
  state \<open>st\<close> and hands every state it can reach to \<open>k\<close>, in the order of the module,
  until \<open>k\<close> accepts one.
\<close>

fun rmatch :: "bool \<Rightarrow> regex \<Rightarrow> mstate \<Rightarrow> (mstate \<Rightarrow> 'r option) \<Rightarrow> 'r option" where
  "rmatch ic (Lit t) (MState p s n g) k =
     (case lit_match ic t (MState p s n g) of None \<Rightarrow> None | Some st' \<Rightarrow> k st')"
| "rmatch ic (Chars neg items) (MState p [] n g) k = None"
| "rmatch ic (Chars neg items) (MState p (c # cs) n g) k =
     (if list_ex (item_match ic c) items \<noteq> neg then k (MState (Some c) cs (n + 1) g) else None)"
| "rmatch ic AnyChar (MState p [] n g) k = None"
| "rmatch ic AnyChar (MState p (c # cs) n g) k =
     (if c \<noteq> CHR 0x0A then k (MState (Some c) cs (n + 1) g) else None)"
| "rmatch ic Eps (MState p s n g) k = k (MState p s n g)"
| "rmatch ic (Seq a b) (MState p s n g) k =
     rmatch ic a (MState p s n g) (\<lambda>st'. rmatch ic b st' k)"
| "rmatch ic (Alt a b) (MState p s n g) k =
     (case rmatch ic a (MState p s n g) k of
        Some r \<Rightarrow> Some r
      | None \<Rightarrow> rmatch ic b (MState p s n g) k)"
| "rmatch ic (Star r) (MState p s n g) k = star_g s (rmatch ic r) (MState p s n g) k"
| "rmatch ic (LazyStar r) (MState p s n g) k = star_l s (rmatch ic r) (MState p s n g) k"
| "rmatch ic (Group i r) (MState p s n g) k =
     rmatch ic r (MState p s n g)
       (\<lambda>st'. k (MState (m_prev st') (m_rest st') (m_pos st') ((i, n, m_pos st') # m_groups st')))"
| "rmatch ic Bol (MState p s n g) k = (if p = None then k (MState p s n g) else None)"
| "rmatch ic Eol (MState p s n g) k =
     (if s = [] \<or> s = [CHR 0x0A] then k (MState p s n g) else None)"
| "rmatch ic WordB (MState p s n g) k = (if word_boundary p s then k (MState p s n g) else None)"

text \<open>Derived forms: \<^verbatim>\<open>r+\<close>, \<^verbatim>\<open>r?\<close>, \<^verbatim>\<open>r{n}\<close>, \<^verbatim>\<open>r{m,n}\<close>, \<^verbatim>\<open>r{n,}\<close>, sequences and alternations.\<close>

definition Plus :: "regex \<Rightarrow> regex" where
  "Plus r = Seq r (Star r)"

definition Opt :: "regex \<Rightarrow> regex" where
  "Opt r = Alt r Eps"

fun Times :: "nat \<Rightarrow> regex \<Rightarrow> regex" where
  "Times 0 r = Eps"
| "Times (Suc n) r = Seq r (Times n r)"

fun UpTo :: "nat \<Rightarrow> regex \<Rightarrow> regex" where
  "UpTo 0 r = Eps"
| "UpTo (Suc n) r = Opt (Seq r (UpTo n r))"

definition Between :: "nat \<Rightarrow> nat \<Rightarrow> regex \<Rightarrow> regex" where
  "Between m n r = Seq (Times m r) (UpTo (n - m) r)"

definition AtLeast :: "nat \<Rightarrow> regex \<Rightarrow> regex" where
  "AtLeast n r = Seq (Times n r) (Star r)"

fun Seqs :: "regex list \<Rightarrow> regex" where
  "Seqs [] = Eps"
| "Seqs [r] = r"
| "Seqs (r # q # rs) = Seq r (Seqs (q # rs))"

fun Alts :: "regex list \<Rightarrow> regex" where
  "Alts [] = Chars False []"
| "Alts [r] = r"
| "Alts (r # q # rs) = Alt r (Alts (q # rs))"

text \<open>A match object: the span of the whole match and the spans of the groups.\<close>

record re_match =
  m_start :: int
  m_end :: int
  m_spans :: "(nat \<times> int \<times> int) list"

definition mk_match :: "int \<Rightarrow> mstate \<Rightarrow> re_match" where
  "mk_match n st = \<lparr>m_start = n, m_end = m_pos st, m_spans = m_groups st\<rparr>"

text \<open>
  One attempt at one position. The scanner of the module refuses an empty match at the
  position where the previous match, itself empty, ended (\<open>reject_empty\<close>).
\<close>

definition attempt :: "bool \<Rightarrow> regex \<Rightarrow> char option \<Rightarrow> string \<Rightarrow> int \<Rightarrow> bool \<Rightarrow> mstate option" where
  "attempt ic r p s n reject_empty =
     rmatch ic r (MState p s n [])
       (\<lambda>st. if reject_empty \<and> m_pos st = n then None else Some st)"

text \<open>\<^verbatim>\<open>re.match\<close>: at the start of the text only. \<^verbatim>\<open>re.search\<close>: the leftmost position with a match.\<close>

definition re_match_start :: "bool \<Rightarrow> regex \<Rightarrow> string \<Rightarrow> re_match option" where
  "re_match_start ic r s = map_option (mk_match 0) (attempt ic r None s 0 False)"

fun search_from :: "bool \<Rightarrow> regex \<Rightarrow> char option \<Rightarrow> string \<Rightarrow> int \<Rightarrow> re_match option" where
  "search_from ic r p [] n = map_option (mk_match n) (attempt ic r p [] n False)"
| "search_from ic r p (c # cs) n =
     (case attempt ic r p (c # cs) n False of
        Some st \<Rightarrow> Some (mk_match n st)
      | None \<Rightarrow> search_from ic r (Some c) cs (n + 1))"

definition re_search :: "bool \<Rightarrow> regex \<Rightarrow> string \<Rightarrow> re_match option" where
  "re_search ic r s = search_from ic r None s 0"

text \<open>
  \<^verbatim>\<open>finditer\<close>: the matches from left to right, without overlap. \<open>resume\<close> is the end of
  the previous match; the positions before it are skipped. After an empty match the
  same position is tried once more, for a non-empty match.
\<close>

definition matches_at :: "bool \<Rightarrow> regex \<Rightarrow> char option \<Rightarrow> string \<Rightarrow> int \<Rightarrow> re_match list" where
  "matches_at ic r p s n =
     (case attempt ic r p s n False of
        None \<Rightarrow> []
      | Some st \<Rightarrow>
          if m_pos st > n then [mk_match n st]
          else (case attempt ic r p s n True of
                  None \<Rightarrow> [mk_match n st]
                | Some st2 \<Rightarrow> [mk_match n st, mk_match n st2]))"

fun finditer_from :: "bool \<Rightarrow> regex \<Rightarrow> char option \<Rightarrow> string \<Rightarrow> int \<Rightarrow> int \<Rightarrow> re_match list" where
  "finditer_from ic r p [] n resume = (if n < resume then [] else matches_at ic r p [] n)"
| "finditer_from ic r p (c # cs) n resume =
     (if n < resume then finditer_from ic r (Some c) cs (n + 1) resume
      else (case matches_at ic r p (c # cs) n of
              [] \<Rightarrow> finditer_from ic r (Some c) cs (n + 1) resume
            | ms \<Rightarrow> ms @ finditer_from ic r (Some c) cs (n + 1) (m_end (last ms))))"

definition re_finditer :: "bool \<Rightarrow> regex \<Rightarrow> string \<Rightarrow> re_match list" where
  "re_finditer ic r s = finditer_from ic r None s 0 0"

text \<open>
  \<^verbatim>\<open>match.group(i)\<close>, \<^verbatim>\<open>match.start(i)\<close> and \<^verbatim>\<open>match.end(i)\<close>: the group 0 is the whole
  match; a group that took no part in the match has no span (\<^verbatim>\<open>None\<close>, -1).
\<close>

definition m_span :: "re_match \<Rightarrow> nat \<Rightarrow> (int \<times> int) option" where
  "m_span m i = (if i = 0 then Some (m_start m, m_end m) else map_of (m_spans m) i)"

definition m_group :: "string \<Rightarrow> re_match \<Rightarrow> nat \<Rightarrow> string option" where
  "m_group s m i = map_option (\<lambda>(a, b). py_slice s a b) (m_span m i)"

text \<open>
  \<^verbatim>\<open>re.sub\<close> with a replacement template made of literal text and group references
  \<^verbatim>\<open>\1\<close>; a group without span expands to the empty string.
\<close>

datatype tpart = TLit string | TGroup nat

definition expand :: "tpart list \<Rightarrow> string \<Rightarrow> re_match \<Rightarrow> string" where
  "expand template s m =
     concat (map (\<lambda>part. case part of
                             TLit t \<Rightarrow> t
                           | TGroup i \<Rightarrow> (case m_group s m i of None \<Rightarrow> [] | Some g \<Rightarrow> g))
                 template)"

fun sub_from :: "tpart list \<Rightarrow> string \<Rightarrow> re_match list \<Rightarrow> int \<Rightarrow> string" where
  "sub_from template s [] cursor = py_slice s cursor (int (length s))"
| "sub_from template s (m # ms) cursor =
     py_slice s cursor (m_start m) @ expand template s m @ sub_from template s ms (m_end m)"

definition re_sub :: "bool \<Rightarrow> regex \<Rightarrow> tpart list \<Rightarrow> string \<Rightarrow> string" where
  "re_sub ic r template s = sub_from template s (re_finditer ic r s) 0"

section \<open>Candidate generator (\<^verbatim>\<open>HybridNamedEntityExtractor\<close>)\<close>

subsection \<open>Pattern library\<close>

definition U :: regex where "U = Chars False [Range CHR ''A'' CHR ''Z'']"
definition L :: regex where "L = Chars False [Range CHR ''a'' CHR ''z'']"
definition D :: regex where "D = Chars False [Digit]"
definition S :: regex where "S = Chars False [Space]"

text \<open>\<^verbatim>\<open>[A-Z][a-z]+\<close> and \<^verbatim>\<open>[A-Z][a-z]+(?:\s+[A-Z][a-z]+)*\<close>\<close>

definition capword :: regex where
  "capword = Seq U (Plus L)"

definition capwords :: regex where
  "capwords = Seq capword (Star (Seq (Plus S) capword))"

text \<open>\<^verbatim>\<open>(?:Jan|Feb|Mar|Apr|May|Jun|Jul|Aug|Sep|Oct|Nov|Dec)\<close>\<close>

definition month_abbrev :: regex where
  "month_abbrev = Alts (map Lit [''Jan'', ''Feb'', ''Mar'', ''Apr'', ''May'', ''Jun'', ''Jul'',
                                 ''Aug'', ''Sep'', ''Oct'', ''Nov'', ''Dec''])"

text \<open>\<^verbatim>\<open>(?:Mr|Mrs|Ms|Dr|Prof)\<close>\<close>

definition title_word :: regex where
  "title_word = Alts (map Lit [''Mr'', ''Mrs'', ''Ms'', ''Dr'', ''Prof''])"

text \<open>\<^verbatim>\<open>[/-]\<close>\<close>

definition slash_dash :: regex where
  "slash_dash = Chars False [Single CHR ''/'', Single CHR ''-'']"

text \<open>
  \<^verbatim>\<open>self.patterns\<close>: each pattern with its \<^verbatim>\<open>re.IGNORECASE\<close> flag.
  \<^verbatim>\<open>\b[A-Z][a-z]+\s+[A-Z][a-z]+(?:\s+[A-Z][a-z]+)?\b\<close>,
  \<^verbatim>\<open>\b(?:Mr|Mrs|Ms|Dr|Prof)\.?\s+[A-Z][a-z]+\s+[A-Z][a-z]+\b\<close>,
  \<^verbatim>\<open>\b[A-Z][a-z]+\s+[A-Z]\.\s+[A-Z][a-z]+\b\<close>.
\<close>

definition personNames :: "(bool \<times> regex) list" where
  "personNames =
     [(False, Seqs [WordB, capword, Plus S, capword, Opt (Seq (Plus S) capword), WordB]),
      (False, Seqs [WordB, title_word, Opt (Lit ''.''), Plus S, capword, Plus S, capword, WordB]),
      (False, Seqs [WordB, capword, Plus S, U, Lit ''.'', Plus S, capword, WordB])]"

text \<open>
  \<^verbatim>\<open>\b(?:the\s+)?[A-Z][a-z]*\s+(?:Conference|Summit|Workshop|Meetup|Expo|Convention|Symposium)\b\<close>
  (ignoring case), \<^verbatim>\<open>\b[A-Z]+\s+\d{4}\b\<close>,
  \<^verbatim>\<open>\b\d{4}\s+[A-Z][a-z]+\s+(?:Conference|Summit)\b\<close> (ignoring case).
\<close>

definition eventPatterns :: "(bool \<times> regex) list" where
  "eventPatterns =
     [(True, Seqs [WordB, Opt (Seq (Lit ''the'') (Plus S)), U, Star L, Plus S,
                   Alts (map Lit [''Conference'', ''Summit'', ''Workshop'', ''Meetup'', ''Expo'',
                                  ''Convention'', ''Symposium'']), WordB]),
      (False, Seqs [WordB, Plus U, Plus S, Times 4 D, WordB]),
      (True, Seqs [WordB, Times 4 D, Plus S, capword, Plus S,
                   Alts (map Lit [''Conference'', ''Summit'']), WordB])]"

text \<open>
  \<^verbatim>\<open>\bin\s+([A-Z][a-z]+(?:\s+[A-Z][a-z]+)*),?\s*([A-Z]{2,3})?\b\<close>,
  \<^verbatim>\<open>\bat\s+([A-Z][a-z]+(?:\s+[A-Z][a-z]+)*)\b\<close>,
  \<^verbatim>\<open>\b([A-Z][a-z]+),\s*([A-Z][a-z]+)(?:,\s*([A-Z]{2,3}))?\b\<close>.
\<close>

definition locationPatterns :: "(bool \<times> regex) list" where
  "locationPatterns =
     [(False, Seqs [WordB, Lit ''in'', Plus S, Group 1 capwords, Opt (Lit '',''), Star S,
                    Opt (Group 2 (Between 2 3 U)), WordB]),
      (False, Seqs [WordB, Lit ''at'', Plus S, Group 1 capwords, WordB]),
      (False, Seqs [WordB, Group 1 capword, Lit '','', Star S, Group 2 capword,
                    Opt (Seqs [Lit '','', Star S, Group 3 (Between 2 3 U)]), WordB])]"

text \<open>
  \<^verbatim>\<open>\b(?:on\s+)?(?:Jan|...|Dec)[a-z]*\s+\d{1,2},?\s+\d{4}\b\<close> (ignoring case),
  \<^verbatim>\<open>\b(?:on\s+)?\d{1,2}\s+(?:Jan|...|Dec)[a-z]*\s+\d{4}\b\<close> (ignoring case),
  \<^verbatim>\<open>\b(?:on\s+)?\d{1,2}[/-]\d{1,2}[/-]\d{2,4}\b\<close>,
  \<^verbatim>\<open>\b(?:on\s+)?\d{4}[/-]\d{1,2}[/-]\d{1,2}\b\<close>.
  \<open>date_forms\<close> are the four forms without the optional \<^verbatim>\<open>on\<close>.
\<close>

definition date_forms :: "regex list" where
  "date_forms =
     [Seqs [month_abbrev, Star L, Plus S, Between 1 2 D, Opt (Lit '',''), Plus S, Times 4 D, WordB],
      Seqs [Between 1 2 D, Plus S, month_abbrev, Star L, Plus S, Times 4 D, WordB],
      Seqs [Between 1 2 D, slash_dash, Between 1 2 D, slash_dash, Between 2 4 D, WordB],
      Seqs [Times 4 D, slash_dash, Between 1 2 D, slash_dash, Between 1 2 D, WordB]]"

definition datePatterns :: "(bool \<times> regex) list" where
  "datePatterns =
     map (\<lambda>(ic, form). (ic, Seqs [WordB, Opt (Seq (Lit ''on'') (Plus S)), form]))
         (zip [True, True, False, False] date_forms)"

subsection \<open>Knowledge bases\<close>

text \<open>
  The knowledge bases are Python sets. They are lists here, in the order of the source
  text; only \<^verbatim>\<open>registrationVerbs\<close> is iterated (by \<^verbatim>\<open>_extractEventNamesFromContext\<close>), and
  the order in which Python iterates a set of strings is not fixed.
\<close>

definition commonFirstNames :: "string list" where
  "commonFirstNames = [''john'', ''jane'', ''michael'', ''sarah'', ''david'', ''maria'', ''james'',
     ''lisa'', ''robert'', ''jennifer'', ''william'', ''elizabeth'', ''richard'', ''patricia'',
     ''ahmed'', ''fatima'', ''muhammad'', ''aisha'', ''ali'', ''zainab'', ''omar'', ''sara'']"

definition commonLastNames :: "string list" where
  "commonLastNames = [''smith'', ''johnson'', ''brown'', ''taylor'', ''miller'', ''davis'', ''garcia'',
     ''rodriguez'', ''wilson'', ''martinez'', ''anderson'', ''jackson'', ''white'', ''khan'',
     ''ahmed'', ''ali'', ''shah'', ''malik'', ''hussain'', ''abbas'']"

definition eventTypeIndicators :: "string list" where
  "eventTypeIndicators = [''conference'', ''summit'', ''workshop'', ''seminar'', ''meetup'', ''expo'',
     ''convention'', ''symposium'', ''forum'', ''congress'', ''festival'', ''competition'',
     ''tournament'', ''championship'', ''ceremony'']"

definition domainKeywords :: "string list" where
  "domainKeywords = [''tech'', ''technology'', ''ai'', ''artificial intelligence'', ''ml'',
     ''machine learning'', ''data science'', ''blockchain'', ''cybersecurity'', ''cloud'',
     ''mobile'', ''web'', ''software'', ''hardware'', ''iot'', ''robotics'', ''fintech'',
     ''healthtech'']"

definition majorCities :: "string list" where
  "majorCities = [''new york'', ''london'', ''tokyo'', ''paris'', ''berlin'', ''sydney'', ''toronto'',
     ''mumbai'', ''delhi'', ''bangalore'', ''karachi'', ''lahore'', ''islamabad'', ''dubai'',
     ''singapore'', ''hong kong'', ''san francisco'', ''los angeles'']"

definition registrationVerbs :: "string list" where
  "registrationVerbs = [''registered'', ''signed up'', ''enrolled'', ''joined'', ''participated'',
     ''attended'', ''booked'', ''reserved'', ''confirmed'', ''applied'', ''subscribed'']"

subsection \<open>Contextual rules\<close>

text \<open>
  \<^verbatim>\<open>contextualRules["personNameContext"]\<close>, each followed by the group
  \<^verbatim>\<open>([A-Z][a-z]+(?:\s+[A-Z][a-z]+)*)\<close> that \<^verbatim>\<open>_extractPersonNamesFromContext\<close> appends:
  \<^verbatim>\<open>\b(?:Mr|Mrs|Ms|Dr|Prof)\.?\s+\<close>,
  \<^verbatim>\<open>\b(?:registered|signed up|enrolled)\s+(?:for|to)\s+.*?\s+(?:by|participant|attendee)\s+\<close>,
  \<^verbatim>\<open>\bparticipant\s+(?:name\s*:\s*)?\<close>, \<^verbatim>\<open>\battendee\s+(?:name\s*:\s*)?\<close>.
\<close>

definition name_colon :: regex where
  "name_colon = Opt (Seqs [Lit ''name'', Star S, Lit '':'', Star S])"

definition personNameContext :: "regex list" where
  "personNameContext =
     map (\<lambda>context. Seq context (Group 1 capwords))
       [Seqs [WordB, title_word, Opt (Lit ''.''), Plus S],
        Seqs [WordB, Alts (map Lit [''registered'', ''signed up'', ''enrolled'']), Plus S,
              Alts (map Lit [''for'', ''to'']), Plus S, LazyStar AnyChar, Plus S,
              Alts (map Lit [''by'', ''participant'', ''attendee'']), Plus S],
        Seqs [WordB, Lit ''participant'', Plus S, name_colon],
        Seqs [WordB, Lit ''attendee'', Plus S, name_colon]]"

text \<open>
  The pattern of \<^verbatim>\<open>_extractEventNamesFromContext\<close> for one verb:
  \<^verbatim>\<open>\b{verb}\s+(?:for\s+)?(?:the\s+)?([A-Z][^.!?]*?(?:conference|summit|workshop|meetup|expo|convention|symposium))\<close>
\<close>

definition not_sentence_end :: regex where
  "not_sentence_end = Chars True [Single CHR ''.'', Single CHR ''!'', Single CHR ''?'']"

definition eventContextPattern :: "string \<Rightarrow> regex" where
  "eventContextPattern verb =
     Seqs [WordB, Lit verb, Plus S, Opt (Seq (Lit ''for'') (Plus S)), Opt (Seq (Lit ''the'') (Plus S)),
           Group 1 (Seqs [U, LazyStar not_sentence_end,
                          Alts (map Lit [''conference'', ''summit'', ''workshop'', ''meetup'', ''expo'',
                                         ''convention'', ''symposium''])])]"

subsection \<open>Validation and scoring helpers\<close>

text \<open>
  The words that \<^verbatim>\<open>str.split()\<close> returns are not empty, so that \<^verbatim>\<open>word[0]\<close> does not raise;
  \<open>first_isupper\<close> is \<^verbatim>\<open>word[0].isupper()\<close> and \<open>titlecased\<close> is
  \<^verbatim>\<open>word[0].isupper() and word[1:].islower()\<close> on such a word.
\<close>

definition first_isupper :: "string \<Rightarrow> bool" where
  "first_isupper word = (case word of [] \<Rightarrow> False | c # cs \<Rightarrow> py_isupper_char c)"

definition titlecased :: "string \<Rightarrow> bool" where
  "titlecased word = (case word of [] \<Rightarrow> False | c # cs \<Rightarrow> py_isupper_char c \<and> py_islower cs)"

definition nonNameWords :: "string list" where
  "nonNameWords = [''conference'', ''summit'', ''workshop'', ''meeting'', ''event'', ''the'', ''and'', ''or'']"

definition validatePersonName :: "string \<Rightarrow> bool" where
  "validatePersonName name =
     (if name = [] \<or> length (py_split name) < 2 then False
      else
        let words = map py_lower (py_split name);
            hasFirstName = list_ex (\<lambda>word. word \<in> set commonFirstNames) words;
            hasLastName = list_ex (\<lambda>word. word \<in> set commonLastNames) words;
            hasValidPattern = list_all (\<lambda>word. py_isalpha word \<and> first_isupper word) (py_split name);
            hasNonNameWords = list_ex (\<lambda>word. py_lower word \<in> set nonNameWords) (py_split name)
        in (hasFirstName \<or> hasLastName \<or> hasValidPattern) \<and> \<not> hasNonNameWords)"

text \<open>\<^verbatim>\<open>\b20\d{2}\b\<close>\<close>

definition year_20xx :: regex where
  "year_20xx = Seqs [WordB, Lit ''20'', Times 2 D, WordB]"

definition validateEventName_ner :: "string \<Rightarrow> bool" where
  "validateEventName_ner eventName' =
     (if eventName' = [] \<or> length (py_strip eventName') < 3 then False
      else
        let eventLower = py_lower eventName';
            hasEventIndicator = list_ex (\<lambda>indicator. py_in indicator eventLower) eventTypeIndicators;
            hasDomainKeyword = list_ex (\<lambda>keyword. py_in keyword eventLower) domainKeywords;
            hasYear = (re_search False year_20xx eventName' \<noteq> None)
        in hasEventIndicator \<or> hasDomainKeyword \<or> hasYear)"

text \<open>\<^verbatim>\<open>^[A-Z][a-z]+(?:\s+[A-Z][a-z]+)*(?:,\s*[A-Z]{2,})?\<close>\<close>

definition location_shape :: regex where
  "location_shape = Seqs [Bol, capwords, Opt (Seqs [Lit '','', Star S, AtLeast 2 U])]"

definition validateLocation :: "string \<Rightarrow> bool" where
  "validateLocation loc =
     (if loc = [] \<or> length (py_strip loc) < 2 then False
      else
        let locationLower = py_lower loc;
            isKnownCity = (locationLower \<in> set majorCities);
            hasLocationPattern = (re_search False location_shape loc \<noteq> None);
            hasNonLocationWords = list_ex (\<lambda>word. py_lower word \<in> set nonNameWords) (py_split loc)
        in (isKnownCity \<or> hasLocationPattern) \<and> \<not> hasNonLocationWords)"

text \<open>The four patterns of \<^verbatim>\<open>_validateDate\<close>, each \<^verbatim>\<open>\b\<close> followed by one of the date forms.\<close>

definition validateDate :: "string \<Rightarrow> bool" where
  "validateDate d =
     (if d = [] then False
      else list_ex (\<lambda>form. re_search True (Seq WordB form) d \<noteq> None) date_forms)"

definition calculatePersonNameConfidence :: "string \<Rightarrow> ExtractionConfidence" where
  "calculatePersonNameConfidence name =
     (let words = map py_lower (py_split name);
          score = (if list_ex (\<lambda>word. word \<in> set commonFirstNames) words then 3 else 0)
                + (if list_ex (\<lambda>word. word \<in> set commonLastNames) words then 3 else 0)
                + (if list_all titlecased (py_split name) then 2 else 0)
                + (if length words = 2 then 2 else if length words > 4 then - 1 else (0::int))
      in if score \<ge> 5 then HIGH else if score \<ge> 3 then MEDIUM else LOW)"

definition calculateEventNameConfidence :: "string \<Rightarrow> string \<Rightarrow> ExtractionConfidence" where
  "calculateEventNameConfidence eventName' fullText =
     (let eventLower = py_lower eventName';
          score = (if list_ex (\<lambda>indicator. py_in indicator eventLower) eventTypeIndicators then 4 else 0)
                + (if list_ex (\<lambda>keyword. py_in keyword eventLower) domainKeywords then 3 else 0)
                + (if re_search False year_20xx eventName' \<noteq> None then 2 else 0)
                + (if list_ex (\<lambda>verb. py_in verb (py_lower fullText)) registrationVerbs then 2 else 0)
                + (if first_isupper eventName' then 1 else (0::int))
      in if score \<ge> 6 then HIGH else if score \<ge> 3 then MEDIUM else LOW)"

definition calculateLocationConfidence :: "string \<Rightarrow> ExtractionConfidence" where
  "calculateLocationConfidence loc =
     (let locationLower = py_lower loc;
          score = (if locationLower \<in> set majorCities then 4 else 0)
                + (if re_search False location_shape loc \<noteq> None then 3 else 0)
                + (if 3 \<le> length loc \<and> length loc \<le> 30 then 1 else (0::int))
      in if score \<ge> 4 then HIGH else if score \<ge> 2 then MEDIUM else LOW)"

text \<open>\<^verbatim>\<open>\b(?:Jan|...|Dec)\<close> (ignoring case) and \<^verbatim>\<open>\d{4}\<close>\<close>

definition calculateDateConfidence :: "string \<Rightarrow> ExtractionConfidence" where
  "calculateDateConfidence d =
     (if re_search True (Seq WordB month_abbrev) d \<noteq> None then HIGH
      else if re_search False (Times 4 D) d \<noteq> None then MEDIUM
      else LOW)"

text \<open>
  \<^verbatim>\<open>re.sub(r"^\s*(?:in|at|near)\s+", "", locationText, flags=re.IGNORECASE).strip()\<close> and
  \<^verbatim>\<open>re.sub(r"^\s*(?:on|date|scheduled for)\s+", "", dateText, flags=re.IGNORECASE).strip()\<close>
\<close>

definition cleanLocationText :: "string \<Rightarrow> string" where
  "cleanLocationText locationText =
     py_strip (re_sub True (Seqs [Bol, Star S, Alts (map Lit [''in'', ''at'', ''near'']), Plus S]) []
                 locationText)"

definition date_prefix :: regex where
  "date_prefix = Seqs [Bol, Star S, Alts (map Lit [''on'', ''date'', ''scheduled for'']), Plus S]"

definition cleanDateText :: "string \<Rightarrow> string" where
  "cleanDateText dateText = py_strip (re_sub True date_prefix [] dateText)"

subsection \<open>Extraction\<close>

text \<open>
  A loop that appends one entity for each match that passes the validator; the
  constructor may raise, which ends the loop with the error.
\<close>

fun collect :: "('m \<Rightarrow> (error + ExtractedEntity) option) \<Rightarrow> 'm list \<Rightarrow> error + ExtractedEntity list" where
  "collect f [] = Inr []"
| "collect f (m # ms) =
     (case f m of
        None \<Rightarrow> collect f ms
      | Some (Inl err) \<Rightarrow> Inl err
      | Some (Inr entity) \<Rightarrow>
          (case collect f ms of Inl err \<Rightarrow> Inl err | Inr entities \<Rightarrow> Inr (entity # entities)))"

text \<open>The same for a loop over patterns with an inner loop over matches.\<close>

fun collect_all :: "('p \<Rightarrow> error + ExtractedEntity list) \<Rightarrow> 'p list \<Rightarrow> error + ExtractedEntity list" where
  "collect_all g [] = Inr []"
| "collect_all g (p # ps) =
     (case g p of
        Inl err \<Rightarrow> Inl err
      | Inr entities \<Rightarrow>
          (case collect_all g ps of Inl err \<Rightarrow> Inl err | Inr others \<Rightarrow> Inr (entities @ others)))"

definition then_extend ::
  "(error + ExtractedEntity list) \<Rightarrow> (error + ExtractedEntity list) \<Rightarrow> error + ExtractedEntity list" where
  "then_extend a b =
     (case a of Inl err \<Rightarrow> Inl err
              | Inr xs \<Rightarrow> (case b of Inl err \<Rightarrow> Inl err | Inr ys \<Rightarrow> Inr (xs @ ys)))"

text \<open>\<^verbatim>\<open>match.group()\<close> of a match in \<open>text\<close>: the slice of the text at the span of the match.\<close>

definition group0 :: "string \<Rightarrow> re_match \<Rightarrow> string" where
  "group0 text m = py_slice text (m_start m) (m_end m)"

definition extractPersonNamesFromContext :: "string \<Rightarrow> error + ExtractedEntity list" where
  "extractPersonNamesFromContext text =
     collect_all
       (\<lambda>pattern. collect
          (\<lambda>m. case m_span m 1 of
                  None \<Rightarrow> Some (Inl (AttributeError ''NoneType object has no attribute strip''))
                | Some (a, b) \<Rightarrow>
                    let name = py_strip (py_slice text a b)
                    in if validatePersonName name
                       then Some (ExtractedEntity_init (Member PERSON) name (Member HIGH) a b name)
                       else None)
          (re_finditer True pattern text))
       personNameContext"

definition extractPersonNames :: "string \<Rightarrow> error + ExtractedEntity list" where
  "extractPersonNames text =
     then_extend
       (collect_all
          (\<lambda>(ic, pattern). collect
             (\<lambda>m. let name = py_strip (group0 text m)
                   in if validatePersonName name
                      then Some (ExtractedEntity_init (Member PERSON) name
                                   (Member (calculatePersonNameConfidence name))
                                   (m_start m) (m_end m) (group0 text m))
                      else None)
             (re_finditer ic pattern text))
          personNames)
       (extractPersonNamesFromContext text)"

definition extractEventNamesFromContext :: "string \<Rightarrow> error + ExtractedEntity list" where
  "extractEventNamesFromContext text =
     collect_all
       (\<lambda>verb. collect
          (\<lambda>m. case m_span m 1 of
                  None \<Rightarrow> Some (Inl (AttributeError ''NoneType object has no attribute strip''))
                | Some (a, b) \<Rightarrow>
                    let eventName' = py_strip (py_slice text a b)
                    in if validateEventName_ner eventName'
                       then Some (ExtractedEntity_init (Member EVENT) eventName' (Member HIGH) a b eventName')
                       else None)
          (re_finditer True (eventContextPattern verb) text))
       registrationVerbs"

definition extractEventNames :: "string \<Rightarrow> error + ExtractedEntity list" where
  "extractEventNames text =
     then_extend
       (collect_all
          (\<lambda>(ic, pattern). collect
             (\<lambda>m. let eventName' = py_strip (group0 text m)
                   in if validateEventName_ner eventName'
                      then Some (ExtractedEntity_init (Member EVENT) eventName'
                                   (Member (calculateEventNameConfidence eventName' text))
                                   (m_start m) (m_end m) (group0 text m))
                      else None)
             (re_finditer ic pattern text))
          eventPatterns)
       (extractEventNamesFromContext text)"

definition extractLocations :: "string \<Rightarrow> error + ExtractedEntity list" where
  "extractLocations text =
     collect_all
       (\<lambda>(ic, pattern). collect
          (\<lambda>m. let loc = cleanLocationText (group0 text m)
                in if loc \<noteq> [] \<and> validateLocation loc
                   then Some (ExtractedEntity_init (Member LOCATION) loc
                                (Member (calculateLocationConfidence loc))
                                (m_start m) (m_end m) (group0 text m))
                   else None)
          (re_finditer ic pattern text))
       locationPatterns"

definition extractDates :: "string \<Rightarrow> error + ExtractedEntity list" where
  "extractDates text =
     collect_all
       (\<lambda>(ic, pattern). collect
          (\<lambda>m. let dateText = py_strip (group0 text m);
                    cleanedDate = cleanDateText dateText
                in if cleanedDate \<noteq> [] \<and> validateDate cleanedDate
                   then Some (ExtractedEntity_init (Member DATE) cleanedDate
                                (Member (calculateDateConfidence cleanedDate))
                                (m_start m) (m_end m) (group0 text m))
                   else None)
          (re_finditer ic pattern text))
       datePatterns"

text \<open>
  The body of the \<^verbatim>\<open>try\<close> block of \<^verbatim>\<open>extractEntities\<close>, and \<^verbatim>\<open>extractEntities\<close> with the
  counters and the last error of the extractor as explicit state. The handler catches
  every \<^verbatim>\<open>Exception\<close>.

  The entities handed to the context scorer are distinct objects, each constructed by
  one of the four extraction functions: the store is the list \<^verbatim>\<open>cleaned\<close> itself and the
  list of references is \<open>[0..<length cleaned]\<close>.
\<close>

definition extractEntities_body :: "string \<Rightarrow> error + ExtractedEntity list" where
  "extractEntities_body text =
     (case then_extend (extractPersonNames text)
             (then_extend (extractEventNames text)
                (then_extend (extractLocations text) (extractDates text))) of
        Inl err \<Rightarrow> Inl err
      | Inr extractedEntities' \<Rightarrow>
          (let cleaned = removeDuplicatesAndOverlaps extractedEntities'
           in Inr (snd (enhanceWithContext [0..<length cleaned] text cleaned))))"

record extractor_state =
  lastError :: "string option"
  extractionCount :: int
  successfulExtractions :: int

fun error_message :: "error \<Rightarrow> string" where
  "error_message (ValueError msg) = msg"
| "error_message (IndexError msg) = msg"
| "error_message (AttributeError msg) = msg"

definition extractEntities :: "extractor_state \<Rightarrow> string \<Rightarrow> extractor_state \<times> ExtractedEntity list" where
  "extractEntities st text =
     (let st1 = st\<lparr>extractionCount := extractionCount st + 1\<rparr>
      in if text = [] \<or> py_strip text = [] then (st1, [])
         else (case extractEntities_body text of
                 Inr extractedEntities' \<Rightarrow>
                   (st1\<lparr>successfulExtractions := successfulExtractions st1 + 1, lastError := None\<rparr>,
                    extractedEntities')
               | Inl exc \<Rightarrow>
                   (st1\<lparr>lastError := Some (''Extraction error: '' @ error_message exc)\<rparr>, [])))"

section \<open>Information processor (\<^verbatim>\<open>AdvancedInformationProcessor\<close>)\<close>

subsection \<open>Validators\<close>

text \<open>
  \<^verbatim>\<open>invalidPatterns\<close>, all searched with \<^verbatim>\<open>re.IGNORECASE\<close>. For person names:
  \<^verbatim>\<open>\b(?:conference|summit|workshop|event|meeting)\b\<close>,
  \<^verbatim>\<open>\b(?:january|...|december)\b\<close>, \<^verbatim>\<open>\d{4}\<close>, \<^verbatim>\<open>@\<close>. For event names: \<^verbatim>\<open>^\d+$\<close>,
  \<^verbatim>\<open>^[a-z\s]+$\<close>. For locations: \<^verbatim>\<open>\b(?:registered|signed up|enrolled)\b\<close>, \<^verbatim>\<open>^\d+$\<close>.
\<close>

definition month_names :: "string list" where
  "month_names = [''january'', ''february'', ''march'', ''april'', ''may'', ''june'', ''july'',
     ''august'', ''september'', ''october'', ''november'', ''december'']"

definition invalid_personName :: "regex list" where
  "invalid_personName =
     [Seqs [WordB, Alts (map Lit [''conference'', ''summit'', ''workshop'', ''event'', ''meeting'']), WordB],
      Seqs [WordB, Alts (map Lit month_names), WordB],
      Times 4 D,
      Lit ''@'']"

definition invalid_eventName :: "regex list" where
  "invalid_eventName =
     [Seqs [Bol, Plus D, Eol],
      Seqs [Bol, Plus (Chars False [Range CHR ''a'' CHR ''z'', Space]), Eol]]"

definition invalid_location :: "regex list" where
  "invalid_location =
     [Seqs [WordB, Alts (map Lit [''registered'', ''signed up'', ''enrolled'']), WordB],
      Seqs [Bol, Plus D, Eol]]"

text \<open>\<^verbatim>\<open>^[A-Za-z\s\.\-\']+$\<close>, used with \<^verbatim>\<open>re.match\<close>\<close>

definition name_charset :: regex where
  "name_charset =
     Seqs [Bol, Plus (Chars False [Range CHR ''A'' CHR ''Z'', Range CHR ''a'' CHR ''z'', Space,
                                   Single CHR ''.'', Single CHR ''-'', Single CHR 0x27]), Eol]"

definition validatePersonName_proc :: "string \<Rightarrow> bool" where
  "validatePersonName_proc name =
     (if name = [] \<or> length (py_strip name) < 3 then False
      else if length name > 100 then False
      else if list_ex (\<lambda>pattern. re_search True pattern name \<noteq> None) invalid_personName then False
      else if re_match_start False name_charset name = None then False
      else if \<not> py_in '' '' (py_strip name) then False
      else True)"

definition validateEventName_proc :: "string \<Rightarrow> bool" where
  "validateEventName_proc eventName' =
     (if eventName' = [] \<or> length (py_strip eventName') < 5 then False
      else if length eventName' > 200 then False
      else if list_ex (\<lambda>pattern. re_search True pattern eventName' \<noteq> None) invalid_eventName then False
      else True)"

definition validateLocationName :: "string \<Rightarrow> bool" where
  "validateLocationName loc =
     (if loc = [] \<or> length (py_strip loc) < 2 then False
      else if length loc > 100 then False
      else if list_ex (\<lambda>pattern. re_search True pattern loc \<noteq> None) invalid_location then False
      else True)"

definition validateDateFormat :: "string \<Rightarrow> bool" where
  "validateDateFormat d =
     (if d = [] \<or> py_strip d = [] then False
      else list_ex (\<lambda>form. re_search True (Seq WordB form) d \<noteq> None) date_forms)"

subsection \<open>Formatters\<close>

definition name_suffixes :: "string list" where
  "name_suffixes = [''II'', ''III'', ''IV'', ''JR'', ''SR'']"

definition format_name_word :: "string \<Rightarrow> string" where
  "format_name_word word =
     (if py_upper word \<in> set name_suffixes then py_upper word
      else if CHR ''.'' \<in> set word then py_upper word
      else py_capitalize word)"

definition cleanAndFormatPersonName :: "string \<Rightarrow> string" where
  "cleanAndFormatPersonName name =
     (let cleaned = py_join '' '' (py_split (py_strip name));
          words = py_split cleaned
      in py_join '' '' (map format_name_word words))"

definition cleanAndFormatLocationName :: "string \<Rightarrow> string" where
  "cleanAndFormatLocationName loc =
     (let cleaned = py_join '' '' (py_split (py_strip loc))
      in if CHR '','' \<in> set cleaned
         then py_join '', ''
                (map (\<lambda>part. py_join '' '' (map py_capitalize (py_split part)))
                     (map py_strip (py_split_on CHR '','' cleaned)))
         else py_join '' '' (map py_capitalize (py_split cleaned)))"

text \<open>
  \<^verbatim>\<open>monthReplacements\<close>, in the order of the dictionary; each key is replaced, as a whole
  word and ignoring case, by its value.
\<close>

definition monthReplacements :: "(string \<times> string) list" where
  "monthReplacements =
     [(''january'', ''January''), (''jan'', ''January''),
      (''february'', ''February''), (''feb'', ''February''),
      (''march'', ''March''), (''mar'', ''March''),
      (''april'', ''April''), (''apr'', ''April''),
      (''may'', ''May''),
      (''june'', ''June''), (''jun'', ''June''),
      (''july'', ''July''), (''jul'', ''July''),
      (''august'', ''August''), (''aug'', ''August''),
      (''september'', ''September''), (''sep'', ''September''),
      (''october'', ''October''), (''oct'', ''October''),
      (''november'', ''November''), (''nov'', ''November''),
      (''december'', ''December''), (''dec'', ''December'')]"

text \<open>\<^verbatim>\<open>re.sub(r'\b' + word + r'\b', replacement, s, flags=re.IGNORECASE)\<close>\<close>

definition sub_word :: "string \<Rightarrow> string \<Rightarrow> string \<Rightarrow> string" where
  "sub_word word replacement s = re_sub True (Seqs [WordB, Lit word, WordB]) [TLit replacement] s"

definition cleanAndFormatDate :: "string \<Rightarrow> string" where
  "cleanAndFormatDate d =
     foldl (\<lambda>cleaned (abbrev, fullMonth). sub_word abbrev fullMonth cleaned)
           (py_strip (re_sub True date_prefix [] d))
           monthReplacements"

definition lowercaseWords :: "string list" where
  "lowercaseWords = [''and'', ''or'', ''of'', ''the'', ''in'', ''on'', ''at'', ''for'', ''with'', ''by'']"

text \<open>The loop over \<^verbatim>\<open>enumerate(words)\<close>: the first word is always capitalized.\<close>

definition format_event_word :: "string \<Rightarrow> string" where
  "format_event_word word =
     (if py_lower word \<in> set lowercaseWords then py_lower word else py_capitalize word)"

definition cleanAndFormatEventName :: "string \<Rightarrow> string" where
  "cleanAndFormatEventName eventName' =
     (let cleaned = py_join '' '' (py_split (py_strip eventName'));
          words = py_split cleaned
      in py_join '' ''
           (case words of [] \<Rightarrow> [] | w # ws \<Rightarrow> py_capitalize w # map format_event_word ws))"

subsection \<open>Selection scores\<close>

text \<open>
  The scores are floats in the source; every summand is a whole number, so that the
  sums are exact and the model uses integers.
\<close>

fun confidenceScores :: "ExtractionConfidence \<Rightarrow> int" where
  "confidenceScores HIGH = 10"
| "confidenceScores MEDIUM = 6"
| "confidenceScores LOW = 2"
| "confidenceScores UNKNOWN = 0"

definition scorePersonEntity :: "ExtractedEntity \<Rightarrow> int" where
  "scorePersonEntity entity =
     (let words = py_split (valueText entity)
      in confidenceScores (confidence entity)
         + (if length words = 2 then 5 else if length words = 3 then 3 else - 1)
         + (if list_all titlecased words then 3 else 0)
         + (if 5 \<le> length (valueText entity) \<and> length (valueText entity) \<le> 50 then 2 else 0))"

definition scoreEventEntity :: "ExtractedEntity \<Rightarrow> int" where
  "scoreEventEntity entity =
     (let words = py_split (valueText entity)
      in confidenceScores (confidence entity)
         + (if list_ex (\<lambda>keyword. py_in keyword (py_lower (valueText entity)))
                 [''conference'', ''summit'', ''workshop'', ''meeting'', ''seminar'', ''expo'', ''forum'']
            then 5 else 0)
         + (if 10 \<le> length (valueText entity) \<and> length (valueText entity) \<le> 100 then 3 else 0)
         + (if (case words of [] \<Rightarrow> False | w # ws \<Rightarrow> first_isupper w) then 2 else 0))"

definition scoreLocationEntity :: "ExtractedEntity \<Rightarrow> int" where
  "scoreLocationEntity entity =
     (let words = py_split (valueText entity)
      in confidenceScores (confidence entity)
         + (if CHR '','' \<in> set (valueText entity) then 5 else 0)
         + (if 3 \<le> length (valueText entity) \<and> length (valueText entity) \<le> 50 then 3 else 0)
         + (if list_all first_isupper words then 2 else 0))"

text \<open>\<^verbatim>\<open>str(n)\<close> for an integer.\<close>

fun digits_of :: "nat \<Rightarrow> string" where
  "digits_of n =
     (if n < 10 then [char_of (48 + n)]
      else digits_of (n div 10) @ [char_of (48 + n mod 10)])"

definition py_str_int :: "int \<Rightarrow> string" where
  "py_str_int i = (if i < 0 then CHR ''-'' # digits_of (nat (- i)) else digits_of (nat i))"

text \<open>\<^verbatim>\<open>(\d{1,2}[/-]\d{1,2}[/-]\d{2,4})|([A-Za-z]+ \d{1,2},? \d{4})\<close>\<close>

definition standard_date_format :: regex where
  "standard_date_format =
     Alt (Group 1 (Seqs [Between 1 2 D, slash_dash, Between 1 2 D, slash_dash, Between 2 4 D]))
         (Group 2 (Seqs [Plus (Chars False [Range CHR ''A'' CHR ''Z'', Range CHR ''a'' CHR ''z'']),
                         Lit '' '', Between 1 2 D, Opt (Lit '',''), Lit '' '', Times 4 D]))"

definition scoreDateEntity :: "datetime \<Rightarrow> ExtractedEntity \<Rightarrow> int" where
  "scoreDateEntity now entity =
     (let current_year = year now
      in confidenceScores (confidence entity)
         + (if re_search False (Times 4 D) (valueText entity) \<noteq> None then 5 else 0)
         + (if py_in (py_str_int current_year) (valueText entity) \<or>
               py_in (py_str_int (current_year + 1)) (valueText entity) then 3 else 0)
         + (if re_search False standard_date_format (valueText entity) \<noteq> None then 2 else 0))"

text \<open>
  \<^verbatim>\<open>_selectBest...Entity\<close>: the entities are sorted by descending score with a stable sort
  and the first is taken, that is the first entity with the greatest score.
\<close>

definition selectBest :: "(ExtractedEntity \<Rightarrow> int) \<Rightarrow> ExtractedEntity list \<Rightarrow> ExtractedEntity option" where
  "selectBest score entities =
     (case entities of [] \<Rightarrow> None | e # es \<Rightarrow> Some (max_from score e es))"

definition processEntities ::
  "(ExtractedEntity \<Rightarrow> int) \<Rightarrow> (string \<Rightarrow> bool) \<Rightarrow> (string \<Rightarrow> string) \<Rightarrow> ExtractedEntity list
     \<Rightarrow> string option" where
  "processEntities score valid format entities =
     (case selectBest score entities of
        None \<Rightarrow> None
      | Some bestEntity \<Rightarrow>
          if valid (valueText bestEntity) then Some (format (valueText bestEntity)) else None)"

subsection \<open>Fallback extraction\<close>

text \<open>
  Each fallback method searches its patterns in order and returns the formatted first
  group of the first pattern whose match passes the validator. \<open>tidy\<close> is what the
  method does to the group before it validates it.
\<close>

fun fallback_search ::
  "bool \<Rightarrow> (string \<Rightarrow> string) \<Rightarrow> (string \<Rightarrow> bool) \<Rightarrow> (string \<Rightarrow> string) \<Rightarrow> regex list \<Rightarrow> string
     \<Rightarrow> error + string option" where
  "fallback_search ic tidy valid format [] text = Inr None"
| "fallback_search ic tidy valid format (pattern # patterns) text =
     (case re_search ic pattern text of
        None \<Rightarrow> fallback_search ic tidy valid format patterns text
      | Some m \<Rightarrow>
          (case m_group text m 1 of
             None \<Rightarrow> Inl (AttributeError ''NoneType object has no attribute strip'')
           | Some g \<Rightarrow>
               if valid (tidy g) then Inr (Some (format (tidy g)))
               else fallback_search ic tidy valid format patterns text))"

text \<open>
  \<^verbatim>\<open>(?:name|participant|attendee)\s*:\s*([A-Z][a-z]+\s+[A-Z][a-z]+)\<close>,
  \<^verbatim>\<open>\b([A-Z][a-z]+\s+[A-Z][a-z]+)\s+(?:registered|signed up|enrolled)\<close>,
  \<^verbatim>\<open>(?:Mr|Mrs|Ms|Dr)\.?\s+([A-Z][a-z]+\s+[A-Z][a-z]+)\<close>, ignoring case.
\<close>

definition two_capwords :: regex where
  "two_capwords = Seqs [capword, Plus S, capword]"

definition nameFallbackPatterns :: "regex list" where
  "nameFallbackPatterns =
     [Seqs [Alts (map Lit [''name'', ''participant'', ''attendee'']), Star S, Lit '':'', Star S,
            Group 1 two_capwords],
      Seqs [WordB, Group 1 two_capwords, Plus S,
            Alts (map Lit [''registered'', ''signed up'', ''enrolled''])],
      Seqs [Alts (map Lit [''Mr'', ''Mrs'', ''Ms'', ''Dr'']), Opt (Lit ''.''), Plus S,
            Group 1 two_capwords]]"

definition extractNameFallback :: "string \<Rightarrow> error + string option" where
  "extractNameFallback text =
     fallback_search True py_strip validatePersonName_proc cleanAndFormatPersonName
       nameFallbackPatterns text"

text \<open>
  \<^verbatim>\<open>"([^"]*(?:conference|summit|workshop|meetup|expo|convention)[^"]*)"\<close>,
  \<^verbatim>\<open>(?:event|conference|summit)\s*:\s*([A-Z][^.!?]*?)(?:\.|$)\<close>,
  \<^verbatim>\<open>(?:attending|joining)\s+(?:the\s+)?([A-Z][^.!?]*?(?:conference|summit|workshop|meetup|expo))\<close>,
  ignoring case.
\<close>

definition not_quote :: regex where
  "not_quote = Chars True [Single CHR 0x22]"

definition eventFallbackPatterns :: "regex list" where
  "eventFallbackPatterns =
     [Seqs [Lit [CHR 0x22],
            Group 1 (Seqs [Star not_quote,
                           Alts (map Lit [''conference'', ''summit'', ''workshop'', ''meetup'', ''expo'',
                                          ''convention'']),
                           Star not_quote]),
            Lit [CHR 0x22]],
      Seqs [Alts (map Lit [''event'', ''conference'', ''summit'']), Star S, Lit '':'', Star S,
            Group 1 (Seq U (LazyStar not_sentence_end)), Alt (Lit ''.'') Eol],
      Seqs [Alts (map Lit [''attending'', ''joining'']), Plus S, Opt (Seq (Lit ''the'') (Plus S)),
            Group 1 (Seqs [U, LazyStar not_sentence_end,
                           Alts (map Lit [''conference'', ''summit'', ''workshop'', ''meetup'', ''expo''])])]]"

definition extractEventFallback :: "string \<Rightarrow> error + string option" where
  "extractEventFallback text =
     fallback_search True py_strip validateEventName_proc cleanAndFormatEventName
       eventFallbackPatterns text"

text \<open>\<^verbatim>\<open>re.sub(r'[.!?]+$', '', s)\<close>\<close>

definition strip_trailing_punctuation :: "string \<Rightarrow> string" where
  "strip_trailing_punctuation s =
     re_sub False (Seq (Plus (Chars False [Single CHR ''.'', Single CHR ''!'', Single CHR ''?''])) Eol) [] s"

text \<open>
  \<^verbatim>\<open>(?:location|venue|city|place)\s*:\s*([A-Z][a-zA-Z\s,]+)\<close>,
  \<^verbatim>\<open>(?:held|taking place|happening|located)\s+(?:in|at)\s+([A-Z][a-zA-Z\s,]+)\<close>,
  \<^verbatim>\<open>\b([A-Z][a-z]+,\s*[A-Z][a-z]+)\b\<close>, case-sensitive.
\<close>

definition location_chars :: regex where
  "location_chars =
     Seq U (Plus (Chars False [Range CHR ''a'' CHR ''z'', Range CHR ''A'' CHR ''Z'', Space, Single CHR '','']))"

definition locationFallbackPatterns :: "regex list" where
  "locationFallbackPatterns =
     [Seqs [Alts (map Lit [''location'', ''venue'', ''city'', ''place'']), Star S, Lit '':'', Star S,
            Group 1 location_chars],
      Seqs [Alts (map Lit [''held'', ''taking place'', ''happening'', ''located'']), Plus S,
            Alts (map Lit [''in'', ''at'']), Plus S, Group 1 location_chars],
      Seqs [WordB, Group 1 (Seqs [capword, Lit '','', Star S, capword]), WordB]]"

definition extractLocationFallback :: "string \<Rightarrow> error + string option" where
  "extractLocationFallback text =
     fallback_search False (\<lambda>g. strip_trailing_punctuation (py_strip g)) validateLocationName
       cleanAndFormatLocationName
       locationFallbackPatterns text"

text \<open>
  \<^verbatim>\<open>(?:date|when|scheduled|happening)\s*:\s*([A-Za-z0-9\s,/-]+)\<close>,
  \<^verbatim>\<open>(?:starts|begins|commences)\s+(?:on\s+)?([A-Za-z0-9\s,/-]+)\<close>,
  \<^verbatim>\<open>\b((?:Jan|...|Dec)[a-z]*\s+\d{1,2},?\s+\d{4})\b\<close>, ignoring case.
\<close>

definition date_chars :: regex where
  "date_chars =
     Plus (Chars False [Range CHR ''A'' CHR ''Z'', Range CHR ''a'' CHR ''z'', Range CHR ''0'' CHR ''9'',
                        Space, Single CHR '','', Single CHR ''/'', Single CHR ''-''])"

definition dateFallbackPatterns :: "regex list" where
  "dateFallbackPatterns =
     [Seqs [Alts (map Lit [''date'', ''when'', ''scheduled'', ''happening'']), Star S, Lit '':'', Star S,
            Group 1 date_chars],
      Seqs [Alts (map Lit [''starts'', ''begins'', ''commences'']), Plus S,
            Opt (Seq (Lit ''on'') (Plus S)), Group 1 date_chars],
      Seqs [WordB,
            Group 1 (Seqs [month_abbrev, Star L, Plus S, Between 1 2 D, Opt (Lit '',''), Plus S,
                           Times 4 D]),
            WordB]]"

definition extractDateFallback :: "string \<Rightarrow> error + string option" where
  "extractDateFallback text =
     fallback_search True (\<lambda>g. strip_trailing_punctuation (py_strip g)) validateDateFormat
       cleanAndFormatDate
       dateFallbackPatterns text"

subsection \<open>\<^verbatim>\<open>_postProcessInformation\<close> and \<^verbatim>\<open>processExtractedEntities\<close>\<close>

text \<open>One of the four steps of \<^verbatim>\<open>_postProcessInformation\<close>: a field that is not set gets the value of its fallback.\<close>

definition fill_if_unset :: "string option \<Rightarrow> (error + string option) \<Rightarrow> error + string option" where
  "fill_if_unset field fallback = (if \<not> truthy field then fallback else Inr field)"

definition postProcessInformation :: "EventRegistrationInfo \<Rightarrow> string \<Rightarrow> error + EventRegistrationInfo" where
  "postProcessInformation info originalText' =
     (case fill_if_unset (participantName info) (extractNameFallback originalText') of
        Inl err \<Rightarrow> Inl err
      | Inr name \<Rightarrow>
     (case fill_if_unset (eventName info) (extractEventFallback originalText') of
        Inl err \<Rightarrow> Inl err
      | Inr event \<Rightarrow>
     (case fill_if_unset (location info) (extractLocationFallback originalText') of
        Inl err \<Rightarrow> Inl err
      | Inr loc \<Rightarrow>
     (case fill_if_unset (date info) (extractDateFallback originalText') of
        Inl err \<Rightarrow> Inl err
      | Inr d \<Rightarrow>
          (let info' = info\<lparr>participantName := name, eventName := event, location := loc, date := d\<rparr>
           in Inr (info'\<lparr>overallConfidence := calculateOverallConfidence info'\<rparr>))))))"

text \<open>\<^verbatim>\<open>EventRegistrationInfo(originalText=originalText)\<close>, created at the time \<open>now\<close>.\<close>

definition new_info :: "datetime \<Rightarrow> string \<Rightarrow> EventRegistrationInfo" where
  "new_info now originalText' =
     \<lparr> participantName = None, eventName = None, location = None, date = None,
       extractedEntities = [], extractionTimestamp = now, sourceText = originalText',
       overallConfidence = UNKNOWN \<rparr>"

text \<open>
  \<^verbatim>\<open>processExtractedEntities\<close>. An entity type is a key of \<^verbatim>\<open>entitiesByType\<close> when the list
  has an entity of the type, and its group is the entities of the type in the order of
  the list. The clock is read for the time stamp and by \<^verbatim>\<open>_scoreDateEntity\<close>; the model
  takes one reading \<open>now\<close> for all.
\<close>

definition of_type :: "EntityType \<Rightarrow> ExtractedEntity list \<Rightarrow> ExtractedEntity list" where
  "of_type t entities = filter (\<lambda>entity. entityType entity = t) entities"

definition processExtractedEntities ::
  "datetime \<Rightarrow> ExtractedEntity list \<Rightarrow> string \<Rightarrow> error + EventRegistrationInfo" where
  "processExtractedEntities now entities originalText' =
     (if entities = [] then Inr (new_info now originalText')
      else
        let registrationInfo = (new_info now originalText')\<lparr>extractedEntities := entities\<rparr>;
            registrationInfo = registrationInfo\<lparr>participantName :=
              processEntities scorePersonEntity validatePersonName_proc cleanAndFormatPersonName
                (of_type PERSON entities)\<rparr>;
            registrationInfo = registrationInfo\<lparr>eventName :=
              processEntities scoreEventEntity validateEventName_proc cleanAndFormatEventName
                (of_type EVENT entities)\<rparr>;
            registrationInfo = registrationInfo\<lparr>location :=
              processEntities scoreLocationEntity validateLocationName cleanAndFormatLocationName
                (of_type LOCATION entities)\<rparr>;
            registrationInfo = registrationInfo\<lparr>date :=
              processEntities (scoreDateEntity now) validateDateFormat cleanAndFormatDate
                (of_type DATE entities)\<rparr>;
            registrationInfo = registrationInfo\<lparr>overallConfidence :=
              calculateOverallConfidence registrationInfo\<rparr>
        in postProcessInformation registrationInfo originalText')"

subsection \<open>Invariants of the matcher\<close>

text \<open>
  \<open>sets_group i r\<close>: every match of \<open>r\<close> closes the group \<open>i\<close>. \<open>has_group i st\<close>: the
  state has a span for the group \<open>i\<close>.
\<close>

fun sets_group :: "nat \<Rightarrow> regex \<Rightarrow> bool" where
  "sets_group i (Group j r) = (i = j \<or> sets_group i r)"
| "sets_group i (Seq a b) = (sets_group i a \<or> sets_group i b)"
| "sets_group i (Alt a b) = (sets_group i a \<and> sets_group i b)"
| "sets_group i r = False"

definition has_group :: "nat \<Rightarrow> mstate \<Rightarrow> bool" where
  "has_group i st \<longleftrightarrow> i \<in> fst ` set (m_groups st)"

definition reaches :: "mstate \<Rightarrow> mstate \<Rightarrow> bool" where
  "reaches st st' \<longleftrightarrow> m_pos st \<le> m_pos st' \<and> (\<forall>j. has_group j st \<longrightarrow> has_group j st')"

section \<open>Properties of the constructor\<close>

lemma py_strip_Nil [simp]: "py_strip [] = []"
  by (simp add: py_strip_def py_rstrip_def py_lstrip_def)

lemma dropWhile_all_iff: "(\<forall>x \<in> set (dropWhile P xs). P x) \<longleftrightarrow> (\<forall>x \<in> set xs. P x)"
  by (induction xs) auto

lemma py_strip_empty_iff: "py_strip v = [] \<longleftrightarrow> (\<forall>c \<in> set v. py_isspace c)"
  by (simp add: py_strip_def py_rstrip_def py_lstrip_def dropWhile_all_iff)

lemma py_isspace_code:
  "py_isspace c \<longleftrightarrow> of_char c \<in> {9, 10, 11, 12, 13, 28, 29, 30, 31, 32, 133, 160 :: nat}"
proof -
  define n where "n = (of_char c :: nat)"
  have "py_isspace c \<longleftrightarrow>
      (9 \<le> n \<and> n \<le> 13) \<or> (28 \<le> n \<and> n \<le> 32) \<or> (133 \<le> n \<and> n \<le> 133) \<or> (160 \<le> n \<and> n \<le> 160)"
    by (simp add: py_isspace_def less_eq_char_def n_def)
  also have "\<dots> \<longleftrightarrow> n \<in> {9, 10, 11, 12, 13, 28, 29, 30, 31, 32, 133, 160}"
    by (simp only: insert_iff empty_iff) arith
  finally show ?thesis by (simp only: n_def)
qed

text \<open>
  C10. Constructing an \<^verbatim>\<open>ExtractedEntity\<close> raises exactly when the entity type is not a
  member of \<^verbatim>\<open>EntityType\<close>, the value is empty or consists of whitespace only, the start
  position is negative, the end position is less than the start position, or the
  confidence is not a member of \<^verbatim>\<open>ExtractionConfidence\<close>; every raise is a
  \<^verbatim>\<open>ValueError\<close>. The whitespace characters are those that \<^verbatim>\<open>str.strip\<close> removes: the
  code points 9..13, 28..32, 133 and 160. In particular a zero-width span, with the end
  position equal to the start position, is accepted.
\<close>

theorem ExtractedEntity_init_raises_iff:
  "((\<exists>err. ExtractedEntity_init ty v conf s e orig = Inl err) \<longleftrightarrow>
      (ty = NotMember \<or> v = [] \<or>
       (\<forall>c \<in> set v. of_char c \<in> {9, 10, 11, 12, 13, 28, 29, 30, 31, 32, 133, 160 :: nat}) \<or>
       s < 0 \<or> e < s \<or> conf = NotMember))
   \<and> ((\<exists>err. ExtractedEntity_init ty v conf s e orig = Inl err) \<longleftrightarrow>
      (\<exists>msg. ExtractedEntity_init ty v conf s e orig = Inl (ValueError msg)))
   \<and> (ty = Member t \<and> conf = Member c \<and> v \<noteq> [] \<and>
        \<not> (\<forall>c \<in> set v. of_char c \<in> {9, 10, 11, 12, 13, 28, 29, 30, 31, 32, 133, 160 :: nat}) \<and>
        0 \<le> s \<longrightarrow>
        ExtractedEntity_init ty v conf s s orig =
          Inr \<lparr> entityType = t, valueText = v, confidence = c,
                startPosition = s, endPosition = s, originalText = orig \<rparr>)"
proof -
  have sp: "py_strip v = [] \<longleftrightarrow>
      (\<forall>c \<in> set v. of_char c \<in> {9, 10, 11, 12, 13, 28, 29, 30, 31, 32, 133, 160 :: nat})"
    unfolding py_strip_empty_iff py_isspace_code ..
  show ?thesis
    unfolding sp [symmetric]
    by (auto simp: ExtractedEntity_init_def split: pyobj.splits)
qed

theorem ExtractedEntity_init_raises_iff_witness:
  "ExtractedEntity_init (Member PERSON) ''Ann Lee'' (Member LOW) 4 4 ''Ann Lee'' =
     Inr \<lparr> entityType = PERSON, valueText = ''Ann Lee'', confidence = LOW,
           startPosition = 4, endPosition = 4, originalText = ''Ann Lee'' \<rparr>
   \<and> (\<exists>err. ExtractedEntity_init (Member PERSON) [CHR 0x20, CHR 0x09, CHR 0xA0, CHR 0x85]
               (Member LOW) 4 5 [] = Inl err)
   \<and> (\<exists>err. ExtractedEntity_init (Member PERSON) ''Ann'' (Member LOW) 4 3 [] = Inl err)"
proof -
  have a: "\<not> (\<forall>c \<in> set ''Ann Lee''. of_char c \<in> {9, 10, 11, 12, 13, 28, 29, 30, 31, 32, 133, 160 :: nat})"
    by simp
  have b: "\<forall>c \<in> set [CHR 0x20, CHR 0x09, CHR 0xA0, CHR 0x85].
      of_char c \<in> {9, 10, 11, 12, 13, 28, 29, 30, 31, 32, 133, 160 :: nat}"
    by simp
  from ExtractedEntity_init_raises_iff
         [of "Member PERSON" "''Ann Lee''" "Member LOW" 4 4 "''Ann Lee''" PERSON LOW] a
  have 1: "ExtractedEntity_init (Member PERSON) ''Ann Lee'' (Member LOW) 4 4 ''Ann Lee'' =
     Inr \<lparr> entityType = PERSON, valueText = ''Ann Lee'', confidence = LOW,
           startPosition = 4, endPosition = 4, originalText = ''Ann Lee'' \<rparr>"
    by simp
  from ExtractedEntity_init_raises_iff
         [of "Member PERSON" "[CHR 0x20, CHR 0x09, CHR 0xA0, CHR 0x85]" "Member LOW" 4 5 "[]" PERSON LOW] b
  have 2: "\<exists>err. ExtractedEntity_init (Member PERSON) [CHR 0x20, CHR 0x09, CHR 0xA0, CHR 0x85]
               (Member LOW) 4 5 [] = Inl err"
    by blast
  from ExtractedEntity_init_raises_iff
         [of "Member PERSON" "''Ann''" "Member LOW" 4 3 "[]" PERSON LOW]
  have 3: "\<exists>err. ExtractedEntity_init (Member PERSON) ''Ann'' (Member LOW) 4 3 [] = Inl err"
    by simp
  from 1 2 3 show ?thesis by blast
qed

section \<open>Properties of the overlap resolver\<close>

lemma overlaps_sym: "overlaps a b \<longleftrightarrow> overlaps b a"
  by (auto simp: overlaps_def)

lemma overlaps_common:
  "overlaps e x \<Longrightarrow> overlaps e y \<Longrightarrow> startPosition x \<le> startPosition e \<Longrightarrow>
   startPosition y \<le> startPosition e \<Longrightarrow> overlaps x y"
  by (auto simp: overlaps_def)

lemma first_overlap_None: "first_overlap e xs = None \<longleftrightarrow> (\<forall>x \<in> set xs. \<not> overlaps e x)"
  by (induction xs) auto

lemma first_overlap_Some: "first_overlap e xs = Some x \<Longrightarrow> x \<in> set xs \<and> overlaps e x"
  by (induction xs) (auto split: if_splits)

lemma nonoverlapping_append:
  "nonoverlapping (xs @ ys) \<longleftrightarrow>
     nonoverlapping xs \<and> nonoverlapping ys \<and> (\<forall>x \<in> set xs. \<forall>y \<in> set ys. \<not> overlaps x y)"
  by (induction xs) auto

lemma nonoverlapping_remove1: "nonoverlapping xs \<Longrightarrow> nonoverlapping (remove1 x xs)"
proof (induction xs)
  case Nil
  then show ?case by simp
next
  case (Cons a xs)
  have "set (remove1 x xs) \<subseteq> set xs" by (rule set_remove1_subset)
  with Cons show ?case by auto
qed

lemma first_overlap_unique:
  "nonoverlapping cleaned \<Longrightarrow> \<forall>y \<in> set cleaned. startPosition y \<le> startPosition e \<Longrightarrow>
   first_overlap e cleaned = Some x \<Longrightarrow> \<forall>y \<in> set (remove1 x cleaned). \<not> overlaps e y"
proof (induction cleaned)
  case Nil
  then show ?case by simp
next
  case (Cons z zs)
  show ?case
  proof (cases "overlaps e z")
    case True
    with Cons.prems have xz: "x = z" by simp
    have "\<not> overlaps e y" if "y \<in> set zs" for y
    proof
      assume "overlaps e y"
      with True Cons.prems(2) that have "overlaps z y"
        by (auto intro: overlaps_common)
      with Cons.prems(1) that show False by simp
    qed
    with xz show ?thesis by simp
  next
    case False
    with Cons.prems have fo: "first_overlap e zs = Some x" by simp
    then have "overlaps e x" by (simp add: first_overlap_Some)
    with False have "x \<noteq> z" by auto
    moreover from Cons.IH Cons.prems fo have "\<forall>y \<in> set (remove1 x zs). \<not> overlaps e y" by simp
    ultimately show ?thesis using False by auto
  qed
qed

lemma resolve_step_inv:
  assumes "resolver_inv cleaned" and "\<forall>y \<in> set cleaned. startPosition y \<le> startPosition e"
  shows "resolver_inv (resolve_step cleaned e) \<and>
         (\<forall>y \<in> set (resolve_step cleaned e). startPosition y \<le> startPosition e)"
proof (cases "first_overlap e cleaned")
  case None
  then have "\<forall>x \<in> set cleaned. \<not> overlaps x e"
    using overlaps_sym by (auto simp: first_overlap_None)
  with assms None show ?thesis
    by (auto simp: resolve_step_def resolver_inv_def nonoverlapping_append sorted_append)
next
  case (Some x)
  from first_overlap_unique [OF _ assms(2) Some] assms(1)
  have "\<forall>y \<in> set (remove1 x cleaned). \<not> overlaps y e"
    using overlaps_sym by (auto simp: resolver_inv_def)
  moreover have "nonoverlapping (remove1 x cleaned)"
    using assms(1) by (simp add: resolver_inv_def nonoverlapping_remove1)
  moreover have "sorted (map startPosition (remove1 x cleaned))"
    using assms(1) by (simp add: resolver_inv_def sorted_map_remove1)
  moreover have "\<forall>y \<in> set (remove1 x cleaned). startPosition y \<le> startPosition e"
    using assms(2) set_remove1_subset by fastforce
  ultimately show ?thesis using Some assms
    by (auto simp: resolve_step_def resolver_inv_def nonoverlapping_append sorted_append)
qed

lemma foldl_resolve_inv:
  "resolver_inv acc \<Longrightarrow> sorted (map startPosition ys) \<Longrightarrow>
   \<forall>a \<in> set acc. \<forall>y \<in> set ys. startPosition a \<le> startPosition y \<Longrightarrow>
   resolver_inv (foldl resolve_step acc ys)"
proof (induction ys arbitrary: acc)
  case Nil
  then show ?case by simp
next
  case (Cons y ys)
  have a: "\<forall>a \<in> set acc. startPosition a \<le> startPosition y" using Cons.prems(3) by simp
  from resolve_step_inv [OF Cons.prems(1) a]
  have inv: "resolver_inv (resolve_step acc y)"
    and le: "\<forall>z \<in> set (resolve_step acc y). startPosition z \<le> startPosition y" by simp_all
  have "\<forall>a \<in> set (resolve_step acc y). \<forall>z \<in> set ys. startPosition a \<le> startPosition z"
    using le Cons.prems(2) by fastforce
  with Cons.IH [OF inv] Cons.prems(2) show ?case by simp
qed

lemma resolver_inv_output: "resolver_inv (removeDuplicatesAndOverlaps entities)"
proof (cases "entities = []")
  case True
  then show ?thesis by (simp add: removeDuplicatesAndOverlaps_def resolver_inv_def)
next
  case False
  have "resolver_inv (foldl resolve_step [] (sort_key startPosition entities))"
    by (rule foldl_resolve_inv) (simp_all add: resolver_inv_def)
  with False show ?thesis by (simp add: removeDuplicatesAndOverlaps_def)
qed

lemma foldl_resolve_id:
  "nonoverlapping (acc @ ys) \<Longrightarrow> foldl resolve_step acc ys = acc @ ys"
proof (induction ys arbitrary: acc)
  case Nil
  then show ?case by simp
next
  case (Cons y ys)
  from Cons.prems have "\<forall>a \<in> set acc. \<not> overlaps y a"
    using overlaps_sym by (auto simp: nonoverlapping_append)
  then have "first_overlap y acc = None" by (simp add: first_overlap_None)
  then have "resolve_step acc y = acc @ [y]" by (simp add: resolve_step_def)
  moreover from Cons.prems have "nonoverlapping ((acc @ [y]) @ ys)" by simp
  ultimately show ?case using Cons.IH [of "acc @ [y]"] by simp
qed

lemma resolver_fixpoint:
  "resolver_inv xs \<Longrightarrow> removeDuplicatesAndOverlaps xs = xs"
  by (simp add: removeDuplicatesAndOverlaps_def resolver_inv_def sort_key_id_if_sorted foldl_resolve_id)

lemma nonoverlapping_nth:
  "nonoverlapping xs \<longleftrightarrow> (\<forall>i j. i < j \<and> j < length xs \<longrightarrow> \<not> overlaps (xs ! i) (xs ! j))"
proof (induction xs)
  case Nil
  then show ?case by simp
next
  case (Cons x xs)
  show ?case
  proof
    assume a: "nonoverlapping (x # xs)"
    show "\<forall>i j. i < j \<and> j < length (x # xs) \<longrightarrow> \<not> overlaps ((x # xs) ! i) ((x # xs) ! j)"
    proof (intro allI impI)
      fix i j assume ij: "i < j \<and> j < length (x # xs)"
      then obtain j' where j': "j = Suc j'" by (cases j) auto
      show "\<not> overlaps ((x # xs) ! i) ((x # xs) ! j)"
      proof (cases i)
        case 0
        with a ij j' show ?thesis by auto
      next
        case (Suc i')
        with a ij j' Cons.IH show ?thesis by auto
      qed
    qed
  next
    assume b: "\<forall>i j. i < j \<and> j < length (x # xs) \<longrightarrow> \<not> overlaps ((x # xs) ! i) ((x # xs) ! j)"
    have "\<not> overlaps x y" if "y \<in> set xs" for y
    proof -
      from that obtain k where "k < length xs" "xs ! k = y" by (auto simp: in_set_conv_nth)
      with b [rule_format, of 0 "Suc k"] show ?thesis by simp
    qed
    moreover have "\<forall>i j. i < j \<and> j < length xs \<longrightarrow> \<not> overlaps (xs ! i) (xs ! j)"
    proof (intro allI impI)
      fix i j assume "i < j \<and> j < length xs"
      with b [rule_format, of "Suc i" "Suc j"] show "\<not> overlaps (xs ! i) (xs ! j)" by simp
    qed
    ultimately show "nonoverlapping (x # xs)" using Cons.IH by simp
  qed
qed

text \<open>
  C1. The specification has the candidate with the strictly greater confidence tier
  (HIGH > MEDIUM > LOW > UNKNOWN) replace the accepted entity it overlaps, so that of two
  overlapping candidates with the confidences MEDIUM and HIGH only the HIGH one is
  retained. The resolver compares the \<^verbatim>\<open>.value\<close> strings of the two enum members
  instead, and \<^verbatim>\<open>"MEDIUM" > "HIGH"\<close> holds for strings: on the two inputs below (the HIGH
  entity starting first, then the MEDIUM entity starting first) the output retains only
  the MEDIUM one.
\<close>

theorem resolver_medium_replaces_high:
  "removeDuplicatesAndOverlaps
     [\<lparr> entityType = LOCATION, valueText = ''San Francisco,'', confidence = HIGH,
        startPosition = 83, endPosition = 101, originalText = ''in San Francisco, '' \<rparr>,
      \<lparr> entityType = PERSON, valueText = ''San Francisco'', confidence = MEDIUM,
        startPosition = 86, endPosition = 99, originalText = ''San Francisco'' \<rparr>]
   = [\<lparr> entityType = PERSON, valueText = ''San Francisco'', confidence = MEDIUM,
        startPosition = 86, endPosition = 99, originalText = ''San Francisco'' \<rparr>]
   \<and> removeDuplicatesAndOverlaps
     [\<lparr> entityType = LOCATION, valueText = ''San Francisco,'', confidence = HIGH,
        startPosition = 86, endPosition = 101, originalText = ''San Francisco, '' \<rparr>,
      \<lparr> entityType = PERSON, valueText = ''San Francisco'', confidence = MEDIUM,
        startPosition = 83, endPosition = 99, originalText = ''in San Francisco'' \<rparr>]
   = [\<lparr> entityType = PERSON, valueText = ''San Francisco'', confidence = MEDIUM,
        startPosition = 83, endPosition = 99, originalText = ''in San Francisco'' \<rparr>]"
  by (simp add: removeDuplicatesAndOverlaps_def resolve_step_def overlaps_def)

text \<open>
  C4. For every candidate list, no two entities at different places of the resolver's
  output have overlapping spans (\<^verbatim>\<open>a.start < b.end and a.end > b.start\<close>), and running
  the resolver on its own output returns that output unchanged.
\<close>

theorem resolver_output_stable:
  "(\<forall>i < length (removeDuplicatesAndOverlaps entities).
      \<forall>j < length (removeDuplicatesAndOverlaps entities). i \<noteq> j \<longrightarrow>
        \<not> (startPosition (removeDuplicatesAndOverlaps entities ! i)
               < endPosition (removeDuplicatesAndOverlaps entities ! j) \<and>
             endPosition (removeDuplicatesAndOverlaps entities ! i)
               > startPosition (removeDuplicatesAndOverlaps entities ! j)))
   \<and> removeDuplicatesAndOverlaps (removeDuplicatesAndOverlaps entities)
       = removeDuplicatesAndOverlaps entities"
proof -
  let ?out = "removeDuplicatesAndOverlaps entities"
  have inv: "resolver_inv ?out" by (rule resolver_inv_output)
  then have no: "\<forall>i j. i < j \<and> j < length ?out \<longrightarrow> \<not> overlaps (?out ! i) (?out ! j)"
    by (simp add: resolver_inv_def nonoverlapping_nth)
  have "\<not> overlaps (?out ! i) (?out ! j)" if "i < length ?out" "j < length ?out" "i \<noteq> j" for i j
  proof (cases "i < j")
    case True
    with no that show ?thesis by blast
  next
    case False
    with that have "j < i" by simp
    with no that have "\<not> overlaps (?out ! j) (?out ! i)" by blast
    then show ?thesis using overlaps_sym by blast
  qed
  then have "\<forall>i < length ?out. \<forall>j < length ?out. i \<noteq> j \<longrightarrow>
      \<not> (startPosition (?out ! i) < endPosition (?out ! j) \<and>
           endPosition (?out ! i) > startPosition (?out ! j))"
    by (simp add: overlaps_def)
  moreover have "removeDuplicatesAndOverlaps ?out = ?out"
    using inv by (rule resolver_fixpoint)
  ultimately show ?thesis by blast
qed

theorem resolver_output_stable_witness:
  "removeDuplicatesAndOverlaps
     [\<lparr> entityType = DATE, valueText = ''5/6/2025'', confidence = MEDIUM,
        startPosition = 20, endPosition = 28, originalText = ''5/6/2025'' \<rparr>,
      \<lparr> entityType = PERSON, valueText = ''Ann Lee'', confidence = LOW,
        startPosition = 3, endPosition = 10, originalText = ''Ann Lee'' \<rparr>,
      \<lparr> entityType = EVENT, valueText = ''Lee Summit'', confidence = MEDIUM,
        startPosition = 7, endPosition = 17, originalText = ''Lee Summit'' \<rparr>]
   = [\<lparr> entityType = EVENT, valueText = ''Lee Summit'', confidence = MEDIUM,
        startPosition = 7, endPosition = 17, originalText = ''Lee Summit'' \<rparr>,
      \<lparr> entityType = DATE, valueText = ''5/6/2025'', confidence = MEDIUM,
        startPosition = 20, endPosition = 28, originalText = ''5/6/2025'' \<rparr>]
   \<and> \<not> ((7::int) < 28 \<and> (17::int) > 20)
   \<and> removeDuplicatesAndOverlaps
     [\<lparr> entityType = EVENT, valueText = ''Lee Summit'', confidence = MEDIUM,
        startPosition = 7, endPosition = 17, originalText = ''Lee Summit'' \<rparr>,
      \<lparr> entityType = DATE, valueText = ''5/6/2025'', confidence = MEDIUM,
        startPosition = 20, endPosition = 28, originalText = ''5/6/2025'' \<rparr>]
   = [\<lparr> entityType = EVENT, valueText = ''Lee Summit'', confidence = MEDIUM,
        startPosition = 7, endPosition = 17, originalText = ''Lee Summit'' \<rparr>,
      \<lparr> entityType = DATE, valueText = ''5/6/2025'', confidence = MEDIUM,
        startPosition = 20, endPosition = 28, originalText = ''5/6/2025'' \<rparr>]"
  using resolver_output_stable [of
     "[\<lparr> entityType = DATE, valueText = ''5/6/2025'', confidence = MEDIUM,
        startPosition = 20, endPosition = 28, originalText = ''5/6/2025'' \<rparr>,
      \<lparr> entityType = PERSON, valueText = ''Ann Lee'', confidence = LOW,
        startPosition = 3, endPosition = 10, originalText = ''Ann Lee'' \<rparr>,
      \<lparr> entityType = EVENT, valueText = ''Lee Summit'', confidence = MEDIUM,
        startPosition = 7, endPosition = 17, originalText = ''Lee Summit'' \<rparr>]"]
  by (simp add: removeDuplicatesAndOverlaps_def resolve_step_def overlaps_def)

section \<open>Properties of the context scorer\<close>

lemma enhance_entity_cases:
  "enhance_entity text e =
     e\<lparr>confidence := (if analyzeEntityContext e text > 0
                       then (case confidence e of LOW \<Rightarrow> MEDIUM | MEDIUM \<Rightarrow> HIGH | c \<Rightarrow> c)
                       else confidence e)\<rparr>"
  by (cases "confidence e") (simp_all add: enhance_entity_def)

lemma analyze_confidence_update [simp]:
  "analyzeEntityContext (e\<lparr>confidence := c\<rparr>) text = analyzeEntityContext e text"
  by (simp add: analyzeEntityContext_def)

lemma analyze_enhance [simp]:
  "analyzeEntityContext (enhance_entity text e) text = analyzeEntityContext e text"
  by (simp add: enhance_entity_cases)

lemma enhance_entity_thrice:
  "enhance_entity text (enhance_entity text (enhance_entity text e)) =
   enhance_entity text (enhance_entity text e)"
  by (cases "confidence e") (simp_all add: enhance_entity_def)

lemma enhance_entity_tier: "tier (confidence e) \<le> tier (confidence (enhance_entity text e))"
  by (cases "confidence e") (simp_all add: enhance_entity_def)

text \<open>The loop body applied \<open>n\<close> times to one object.\<close>

lemma enhance_funpow_ge2:
  "2 \<le> n \<Longrightarrow> (enhance_entity text ^^ n) e = enhance_entity text (enhance_entity text e)"
proof (induction n)
  case 0
  then show ?case by simp
next
  case (Suc n)
  show ?case
  proof (cases "2 \<le> n")
    case True
    with Suc.IH show ?thesis by (simp add: enhance_entity_thrice)
  next
    case False
    with Suc.prems have "n = 1" by simp
    then show ?thesis by simp
  qed
qed

lemma enhance_funpow_cases:
  "(enhance_entity text ^^ n) e =
     (if n = 0 then e else if n = 1 then enhance_entity text e
      else enhance_entity text (enhance_entity text e))"
  using enhance_funpow_ge2 [of n "text" e] by (cases "n = 0"; cases "n = 1") simp_all

text \<open>
  The store after the loop: the loop body has been applied to every object as many
  times as the object occurs in the list.
\<close>

lemma length_foldl_enhance [simp]: "length (foldl (enhance_at text) h rs) = length h"
  by (induction rs arbitrary: h) (simp_all add: enhance_at_def)

lemma foldl_enhance_nth:
  "r < length h \<Longrightarrow>
   foldl (enhance_at text) h rs ! r = (enhance_entity text ^^ count_list rs r) (h ! r)"
proof (induction rs arbitrary: h)
  case Nil
  then show ?case by simp
next
  case (Cons a rs)
  have len: "r < length (enhance_at text h a)"
    using Cons.prems by (simp add: enhance_at_def)
  have "foldl (enhance_at text) h (a # rs) ! r =
        (enhance_entity text ^^ count_list rs r) (enhance_at text h a ! r)"
    using Cons.IH [OF len] by simp
  also have "enhance_at text h a ! r = (if a = r then enhance_entity text (h ! r) else h ! r)"
    using Cons.prems by (simp add: enhance_at_def nth_list_update)
  finally show ?case by (simp add: funpow_swap1)
qed

lemma enhanceWithContext_nth:
  "r < length h \<Longrightarrow>
   snd (enhanceWithContext entities text h) ! r =
     (enhance_entity text ^^ count_list entities r) (h ! r)"
  by (simp add: enhanceWithContext_def foldl_enhance_nth)

lemma enhanceWithContext_length [simp]:
  "length (snd (enhanceWithContext entities text h)) = length h"
  by (simp add: enhanceWithContext_def)

lemma count_list_upt: "r < n \<Longrightarrow> count_list [0..<n] r = 1"
  by (induction n) (auto simp: less_Suc_eq)

text \<open>On a list of distinct objects the loop is a map.\<close>

lemma enhanceWithContext_fresh:
  "snd (enhanceWithContext [0..<length h] text h) = map (enhance_entity text) h"
  by (rule nth_equalityI) (simp_all add: enhanceWithContext_nth count_list_upt)

text \<open>
  C5, as stated: the scorer promotes by one tier when the keyword count is positive,
  leaves HIGH alone, never lowers a confidence, and a second application to its own
  output (same text) changes no entity. The last part fails: the scorer keeps no record
  of the entities it has promoted, so an entity that was LOW, with a positive keyword
  count, is MEDIUM after the first application and HIGH after the second. The store
  holds the one object of the list \<^verbatim>\<open>[x]\<close>.
\<close>

theorem context_scorer_second_pass_counterexample:
  "snd (enhanceWithContext [0] ''in Rome''
     (snd (enhanceWithContext [0] ''in Rome''
        [\<lparr> entityType = LOCATION, valueText = ''Rome'', confidence = LOW,
           startPosition = 3, endPosition = 7, originalText = ''Rome'' \<rparr>])))
   \<noteq> snd (enhanceWithContext [0] ''in Rome''
        [\<lparr> entityType = LOCATION, valueText = ''Rome'', confidence = LOW,
           startPosition = 3, endPosition = 7, originalText = ''Rome'' \<rparr>])"
  by code_simp

text \<open>
  C5, amended. For every list of entities, text and store, the scorer returns the list
  it was given, creates and deletes no object, and changes at most the confidence of an
  object. An object that is not in the list, or has no keyword in its window, or is
  HIGH or UNKNOWN, is unchanged. An object with a positive keyword count is promoted
  once for each of its occurrences in the list, up to HIGH: one that occurs once is
  promoted by exactly one tier (LOW to MEDIUM, MEDIUM to HIGH), and a LOW one that occurs
  more than once is HIGH after a single application. No confidence is lowered. A second
  application promotes again by the same rule (an object that was LOW with a positive
  count is then HIGH), and from the second application on the scorer changes nothing:
  three applications leave the store of two.
\<close>

theorem context_scorer_promotion:
  "fst (enhanceWithContext entities text h) = entities \<and>
   length (snd (enhanceWithContext entities text h)) = length h \<and>
   (\<forall>r < length h.
      let e = h ! r;
          e' = snd (enhanceWithContext entities text h) ! r;
          e'' = snd (enhanceWithContext entities text (snd (enhanceWithContext entities text h))) ! r;
          n = count_list entities r;
          k = analyzeEntityContext e text
      in e' = e\<lparr>confidence := confidence e'\<rparr> \<and>
         (n = 0 \<or> k \<le> 0 \<or> confidence e = HIGH \<or> confidence e = UNKNOWN \<longrightarrow> e' = e) \<and>
         (n = 1 \<and> 0 < k \<and> confidence e = LOW \<longrightarrow> confidence e' = MEDIUM) \<and>
         (1 < n \<and> 0 < k \<and> confidence e = LOW \<longrightarrow> confidence e' = HIGH) \<and>
         (0 < n \<and> 0 < k \<and> confidence e = MEDIUM \<longrightarrow> confidence e' = HIGH) \<and>
         (0 < n \<and> 0 < k \<and> confidence e = LOW \<longrightarrow> confidence e'' = HIGH) \<and>
         tier (confidence e) \<le> tier (confidence e')) \<and>
   snd (enhanceWithContext entities text
          (snd (enhanceWithContext entities text (snd (enhanceWithContext entities text h))))) =
     snd (enhanceWithContext entities text (snd (enhanceWithContext entities text h)))"
proof -
  let ?h1 = "snd (enhanceWithContext entities text h)"
  let ?h2 = "snd (enhanceWithContext entities text ?h1)"
  let ?h3 = "snd (enhanceWithContext entities text ?h2)"
  have one: "?h1 ! r = (enhance_entity text ^^ count_list entities r) (h ! r)"
    if "r < length h" for r
    using that by (rule enhanceWithContext_nth)
  have two: "?h2 ! r =
      (enhance_entity text ^^ count_list entities r)
        ((enhance_entity text ^^ count_list entities r) (h ! r))"
    if "r < length h" for r
    using that by (simp add: enhanceWithContext_nth)
  have three: "?h3 ! r =
      (enhance_entity text ^^ count_list entities r)
        ((enhance_entity text ^^ count_list entities r)
           ((enhance_entity text ^^ count_list entities r) (h ! r)))"
    if "r < length h" for r
    using that by (simp add: enhanceWithContext_nth)
  have stable: "?h3 = ?h2"
  proof (rule nth_equalityI)
    show "length ?h3 = length ?h2" by simp
  next
    fix r assume "r < length ?h3"
    then have r: "r < length h" by simp
    show "?h3 ! r = ?h2 ! r"
      unfolding three [OF r] two [OF r] enhance_funpow_cases
      by (simp add: enhance_entity_thrice)
  qed
  have each: "let e = h ! r; e' = ?h1 ! r; e'' = ?h2 ! r;
          n = count_list entities r; k = analyzeEntityContext e text
      in e' = e\<lparr>confidence := confidence e'\<rparr> \<and>
         (n = 0 \<or> k \<le> 0 \<or> confidence e = HIGH \<or> confidence e = UNKNOWN \<longrightarrow> e' = e) \<and>
         (n = 1 \<and> 0 < k \<and> confidence e = LOW \<longrightarrow> confidence e' = MEDIUM) \<and>
         (1 < n \<and> 0 < k \<and> confidence e = LOW \<longrightarrow> confidence e' = HIGH) \<and>
         (0 < n \<and> 0 < k \<and> confidence e = MEDIUM \<longrightarrow> confidence e' = HIGH) \<and>
         (0 < n \<and> 0 < k \<and> confidence e = LOW \<longrightarrow> confidence e'' = HIGH) \<and>
         tier (confidence e) \<le> tier (confidence e')"
    if r: "r < length h" for r
    unfolding Let_def one [OF r] two [OF r] enhance_funpow_cases
    by (cases "confidence (h ! r)") (simp_all add: enhance_entity_def)
  have "fst (enhanceWithContext entities text h) = entities"
    by (simp add: enhanceWithContext_def)
  moreover have "length ?h1 = length h" by simp
  ultimately show ?thesis using stable each by blast
qed

theorem context_scorer_promotion_witness:
  "0 < analyzeEntityContext
         \<lparr> entityType = LOCATION, valueText = ''Rome'', confidence = LOW,
           startPosition = 3, endPosition = 7, originalText = ''Rome'' \<rparr>
         ''in Rome on 5/6/2025 Dr. Ann Lee Acme''
   \<and> 0 < analyzeEntityContext
         \<lparr> entityType = PERSON, valueText = ''Ann Lee'', confidence = LOW,
           startPosition = 24, endPosition = 31, originalText = ''Ann Lee'' \<rparr>
         ''in Rome on 5/6/2025 Dr. Ann Lee Acme''
   \<and> enhanceWithContext [3, 0, 1, 3, 4]
     ''in Rome on 5/6/2025 Dr. Ann Lee Acme''
     [\<lparr> entityType = LOCATION, valueText = ''Rome'', confidence = LOW,
        startPosition = 3, endPosition = 7, originalText = ''Rome'' \<rparr>,
      \<lparr> entityType = DATE, valueText = ''5/6/2025'', confidence = MEDIUM,
        startPosition = 11, endPosition = 19, originalText = ''5/6/2025'' \<rparr>,
      \<lparr> entityType = DATE, valueText = ''5/6/2025'', confidence = LOW,
        startPosition = 11, endPosition = 19, originalText = ''5/6/2025'' \<rparr>,
      \<lparr> entityType = PERSON, valueText = ''Ann Lee'', confidence = LOW,
        startPosition = 24, endPosition = 31, originalText = ''Ann Lee'' \<rparr>,
      \<lparr> entityType = ORGANIZATION, valueText = ''Acme'', confidence = LOW,
        startPosition = 32, endPosition = 36, originalText = ''Acme'' \<rparr>]
   = ([3, 0, 1, 3, 4],
      [\<lparr> entityType = LOCATION, valueText = ''Rome'', confidence = MEDIUM,
        startPosition = 3, endPosition = 7, originalText = ''Rome'' \<rparr>,
      \<lparr> entityType = DATE, valueText = ''5/6/2025'', confidence = HIGH,
        startPosition = 11, endPosition = 19, originalText = ''5/6/2025'' \<rparr>,
      \<lparr> entityType = DATE, valueText = ''5/6/2025'', confidence = LOW,
        startPosition = 11, endPosition = 19, originalText = ''5/6/2025'' \<rparr>,
      \<lparr> entityType = PERSON, valueText = ''Ann Lee'', confidence = HIGH,
        startPosition = 24, endPosition = 31, originalText = ''Ann Lee'' \<rparr>,
      \<lparr> entityType = ORGANIZATION, valueText = ''Acme'', confidence = LOW,
        startPosition = 32, endPosition = 36, originalText = ''Acme'' \<rparr>])
   \<and> confidence (snd (enhanceWithContext [3, 0, 1, 3, 4]
     ''in Rome on 5/6/2025 Dr. Ann Lee Acme''
     [\<lparr> entityType = LOCATION, valueText = ''Rome'', confidence = LOW,
        startPosition = 3, endPosition = 7, originalText = ''Rome'' \<rparr>,
      \<lparr> entityType = DATE, valueText = ''5/6/2025'', confidence = MEDIUM,
        startPosition = 11, endPosition = 19, originalText = ''5/6/2025'' \<rparr>,
      \<lparr> entityType = DATE, valueText = ''5/6/2025'', confidence = LOW,
        startPosition = 11, endPosition = 19, originalText = ''5/6/2025'' \<rparr>,
      \<lparr> entityType = PERSON, valueText = ''Ann Lee'', confidence = LOW,
        startPosition = 24, endPosition = 31, originalText = ''Ann Lee'' \<rparr>,
      \<lparr> entityType = ORGANIZATION, valueText = ''Acme'', confidence = LOW,
        startPosition = 32, endPosition = 36, originalText = ''Acme'' \<rparr>]) ! 0) = MEDIUM
   \<and> confidence (snd (enhanceWithContext [3, 0, 1, 3, 4]
     ''in Rome on 5/6/2025 Dr. Ann Lee Acme''
     [\<lparr> entityType = LOCATION, valueText = ''Rome'', confidence = LOW,
        startPosition = 3, endPosition = 7, originalText = ''Rome'' \<rparr>,
      \<lparr> entityType = DATE, valueText = ''5/6/2025'', confidence = MEDIUM,
        startPosition = 11, endPosition = 19, originalText = ''5/6/2025'' \<rparr>,
      \<lparr> entityType = DATE, valueText = ''5/6/2025'', confidence = LOW,
        startPosition = 11, endPosition = 19, originalText = ''5/6/2025'' \<rparr>,
      \<lparr> entityType = PERSON, valueText = ''Ann Lee'', confidence = LOW,
        startPosition = 24, endPosition = 31, originalText = ''Ann Lee'' \<rparr>,
      \<lparr> entityType = ORGANIZATION, valueText = ''Acme'', confidence = LOW,
        startPosition = 32, endPosition = 36, originalText = ''Acme'' \<rparr>]) ! 3) = HIGH"
proof -
  let ?t = "''in Rome on 5/6/2025 Dr. Ann Lee Acme''"
  let ?e = "\<lparr> entityType = LOCATION, valueText = ''Rome'', confidence = LOW,
        startPosition = 3, endPosition = 7, originalText = ''Rome'' \<rparr>"
  let ?p = "\<lparr> entityType = PERSON, valueText = ''Ann Lee'', confidence = LOW,
        startPosition = 24, endPosition = 31, originalText = ''Ann Lee'' \<rparr>"
  let ?H = "[?e,
      \<lparr> entityType = DATE, valueText = ''5/6/2025'', confidence = MEDIUM,
        startPosition = 11, endPosition = 19, originalText = ''5/6/2025'' \<rparr>,
      \<lparr> entityType = DATE, valueText = ''5/6/2025'', confidence = LOW,
        startPosition = 11, endPosition = 19, originalText = ''5/6/2025'' \<rparr>,
      ?p,
      \<lparr> entityType = ORGANIZATION, valueText = ''Acme'', confidence = LOW,
        startPosition = 32, endPosition = 36, originalText = ''Acme'' \<rparr>]"
  let ?X = "[3, 0, 1, 3, 4] :: nat list"
  have pos: "0 < analyzeEntityContext ?e ?t" by code_simp
  have pos': "0 < analyzeEntityContext ?p ?t" by code_simp
  have ev: "enhanceWithContext ?X ?t ?H =
     (?X,
      [\<lparr> entityType = LOCATION, valueText = ''Rome'', confidence = MEDIUM,
        startPosition = 3, endPosition = 7, originalText = ''Rome'' \<rparr>,
      \<lparr> entityType = DATE, valueText = ''5/6/2025'', confidence = HIGH,
        startPosition = 11, endPosition = 19, originalText = ''5/6/2025'' \<rparr>,
      \<lparr> entityType = DATE, valueText = ''5/6/2025'', confidence = LOW,
        startPosition = 11, endPosition = 19, originalText = ''5/6/2025'' \<rparr>,
      \<lparr> entityType = PERSON, valueText = ''Ann Lee'', confidence = HIGH,
        startPosition = 24, endPosition = 31, originalText = ''Ann Lee'' \<rparr>,
      \<lparr> entityType = ORGANIZATION, valueText = ''Acme'', confidence = LOW,
        startPosition = 32, endPosition = 36, originalText = ''Acme'' \<rparr>])"
    by code_simp
  have n0: "count_list ?X 0 = 1" and n3: "1 < count_list ?X 3" by simp_all
  have h0: "?H ! 0 = ?e" and h3: "?H ! 3 = ?p" by simp_all
  have l0: "0 < length ?H" and l3: "3 < length ?H" by simp_all
  from context_scorer_promotion [of ?X ?t ?H]
  have all: "\<forall>r < length ?H.
      let e = ?H ! r; e' = snd (enhanceWithContext ?X ?t ?H) ! r;
          e'' = snd (enhanceWithContext ?X ?t (snd (enhanceWithContext ?X ?t ?H))) ! r;
          n = count_list ?X r; k = analyzeEntityContext e ?t
      in e' = e\<lparr>confidence := confidence e'\<rparr> \<and>
         (n = 0 \<or> k \<le> 0 \<or> confidence e = HIGH \<or> confidence e = UNKNOWN \<longrightarrow> e' = e) \<and>
         (n = 1 \<and> 0 < k \<and> confidence e = LOW \<longrightarrow> confidence e' = MEDIUM) \<and>
         (1 < n \<and> 0 < k \<and> confidence e = LOW \<longrightarrow> confidence e' = HIGH) \<and>
         (0 < n \<and> 0 < k \<and> confidence e = MEDIUM \<longrightarrow> confidence e' = HIGH) \<and>
         (0 < n \<and> 0 < k \<and> confidence e = LOW \<longrightarrow> confidence e'' = HIGH) \<and>
         tier (confidence e) \<le> tier (confidence e')"
    by blast
  from all l0 have "count_list ?X 0 = 1 \<and> 0 < analyzeEntityContext (?H ! 0) ?t \<and>
      confidence (?H ! 0) = LOW \<longrightarrow>
      confidence (snd (enhanceWithContext ?X ?t ?H) ! 0) = MEDIUM"
    unfolding Let_def by blast
  with n0 pos have r0: "confidence (snd (enhanceWithContext ?X ?t ?H) ! 0) = MEDIUM"
    unfolding h0 by simp
  from all l3 have "1 < count_list ?X 3 \<and> 0 < analyzeEntityContext (?H ! 3) ?t \<and>
      confidence (?H ! 3) = LOW \<longrightarrow>
      confidence (snd (enhanceWithContext ?X ?t ?H) ! 3) = HIGH"
    unfolding Let_def by blast
  with n3 pos' have r3: "confidence (snd (enhanceWithContext ?X ?t ?H) ! 3) = HIGH"
    unfolding h3 by simp
  from pos pos' ev r0 r3 show ?thesis by blast
qed

section \<open>Properties of the entity merger\<close>

lemma max_from_props:
  "max_from f best xs \<in> set (best # xs) \<and> (\<forall>x \<in> set (best # xs). f x \<le> f (max_from f best xs))"
proof (induction xs arbitrary: best)
  case Nil
  then show ?case by simp
next
  case (Cons a xs)
  from Cons.IH [of "if f a > f best then a else best"] show ?case
    by (auto split: if_splits)
qed

lemma merge_group_props:
  assumes "l \<noteq> []"
  shows "\<exists>b. merge_group l = Inr b \<and> b \<in> set l \<and>
           (\<forall>x \<in> set l. confidenceToScore (confidence x) \<le> confidenceToScore (confidence b))"
proof (cases l)
  case Nil
  with assms show ?thesis by simp
next
  case (Cons a rest)
  show ?thesis
  proof (cases rest)
    case Nil
    with Cons show ?thesis by (simp add: merge_group_def)
  next
    case (Cons b rest')
    with \<open>l = a # rest\<close> have "merge_group l = Inr (max_from (\<lambda>x. confidenceToScore (confidence x)) a rest)"
      by (simp add: merge_group_def py_max_key_def)
    with max_from_props [of "\<lambda>x. confidenceToScore (confidence x)" a rest] \<open>l = a # rest\<close>
    show ?thesis by simp
  qed
qed

lemma group_append_keys: "fst ` set (group_append k v g) = insert k (fst ` set g)"
proof (induction g)
  case Nil
  then show ?case by simp
next
  case (Cons p g)
  obtain k' vs where p: "p = (k', vs)" by (cases p)
  show ?case
  proof (cases "k = k'")
    case True
    with p show ?thesis by auto
  next
    case False
    with p Cons show ?thesis by auto
  qed
qed

lemma group_append_distinct: "distinct (map fst g) \<Longrightarrow> distinct (map fst (group_append k v g))"
proof (induction g)
  case Nil
  then show ?case by simp
next
  case (Cons p g)
  obtain k' vs where p: "p = (k', vs)" by (cases p)
  show ?case
  proof (cases "k = k'")
    case True
    with p Cons.prems show ?thesis by simp
  next
    case False
    from Cons.prems p have "k' \<notin> fst ` set g" by simp
    with False have "k' \<notin> fst ` set (group_append k v g)"
      by (simp add: group_append_keys)
    with False p Cons show ?thesis by simp
  qed
qed

lemma group_append_members: "group_members (group_append k v g) = insert v (group_members g)"
proof (induction g)
  case Nil
  then show ?case by (simp add: group_members_def)
next
  case (Cons p g)
  obtain k' vs where p: "p = (k', vs)" by (cases p)
  show ?case
  proof (cases "k = k'")
    case True
    with p show ?thesis by (simp add: group_members_def)
  next
    case False
    with p Cons show ?thesis by (simp add: group_members_def)
  qed
qed

lemma group_append_wf:
  "\<forall>p \<in> set g. snd p \<noteq> [] \<and> (\<forall>x \<in> set (snd p). merge_key x = fst p) \<Longrightarrow>
   \<forall>p \<in> set (group_append (merge_key v) v g). snd p \<noteq> [] \<and> (\<forall>x \<in> set (snd p). merge_key x = fst p)"
proof (induction g)
  case Nil
  then show ?case by simp
next
  case (Cons p g)
  obtain k' vs where p: "p = (k', vs)" by (cases p)
  show ?case
  proof (cases "merge_key v = k'")
    case True
    with p Cons.prems show ?thesis by simp
  next
    case False
    with p Cons show ?thesis by simp
  qed
qed

lemma group_append_ok:
  assumes "groups_ok g"
  shows "groups_ok (group_append (merge_key v) v g)"
proof -
  from assms have d: "distinct (map fst g)"
    and w: "\<forall>p \<in> set g. snd p \<noteq> [] \<and> (\<forall>x \<in> set (snd p). merge_key x = fst p)"
    unfolding groups_ok_def by blast+
  from d have "distinct (map fst (group_append (merge_key v) v g))"
    by (rule group_append_distinct)
  moreover note group_append_wf [OF w, of v]
  ultimately show ?thesis unfolding groups_ok_def by blast
qed

lemma foldl_group_append:
  "groups_ok g \<Longrightarrow>
   groups_ok (foldl (\<lambda>grouped entity. group_append (merge_key entity) entity grouped) g es) \<and>
   group_members (foldl (\<lambda>grouped entity. group_append (merge_key entity) entity grouped) g es)
     = group_members g \<union> set es"
proof (induction es arbitrary: g)
  case Nil
  then show ?case by simp
next
  case (Cons e es)
  from Cons.IH [OF group_append_ok [OF Cons.prems, of e]] show ?case
    by (simp add: group_append_members)
qed

lemma group_entities_props:
  "groups_ok (group_entities es) \<and> group_members (group_entities es) = set es"
proof -
  have "groups_ok []" by (simp add: groups_ok_def)
  from foldl_group_append [OF this, of es] show ?thesis
    by (simp add: group_entities_def group_members_def)
qed

lemma merge_groups_props:
  "\<forall>p \<in> set g. snd p \<noteq> [] \<Longrightarrow>
   \<exists>merged. merge_groups g = Inr merged \<and> length merged = length g \<and>
     (\<forall>i < length g. merged ! i \<in> set (snd (g ! i)) \<and>
        (\<forall>x \<in> set (snd (g ! i)). confidenceToScore (confidence x) \<le> confidenceToScore (confidence (merged ! i))))"
proof (induction g)
  case Nil
  then show ?case by simp
next
  case (Cons p g)
  obtain k l where p: "p = (k, l)" by (cases p)
  with Cons.prems have "l \<noteq> []" by simp
  from merge_group_props [OF this] obtain b where b: "merge_group l = Inr b" "b \<in> set l"
    "\<forall>x \<in> set l. confidenceToScore (confidence x) \<le> confidenceToScore (confidence b)" by blast
  from Cons.prems have "\<forall>p \<in> set g. snd p \<noteq> []" by simp
  from Cons.IH [OF this] obtain merged where m: "merge_groups g = Inr merged" "length merged = length g"
    "\<forall>i < length g. merged ! i \<in> set (snd (g ! i)) \<and>
        (\<forall>x \<in> set (snd (g ! i)). confidenceToScore (confidence x) \<le> confidenceToScore (confidence (merged ! i)))"
    by blast
  have "(b # merged) ! i \<in> set (snd ((p # g) ! i)) \<and>
        (\<forall>x \<in> set (snd ((p # g) ! i)). confidenceToScore (confidence x) \<le> confidenceToScore (confidence ((b # merged) ! i)))"
    if "i < length (p # g)" for i
  proof (cases i)
    case 0
    with b p show ?thesis by simp
  next
    case (Suc j)
    with that have "j < length g" by simp
    with m(3) Suc show ?thesis by simp
  qed
  moreover have "merge_groups (p # g) = Inr (b # merged)"
    using b(1) m(1) p by simp
  ultimately show ?case using m(2) by simp
qed

lemma confidenceToScore_tier: "confidenceToScore c = int (tier c)"
  by (cases c) simp_all

lemma mergeEntities_props:
  "\<exists>merged. mergeEntities entities = Inr merged \<and>
     distinct (map merge_key merged) \<and>
     merge_key ` set merged = merge_key ` set entities \<and>
     (\<forall>m \<in> set merged. m \<in> set entities \<and>
        (\<forall>x \<in> set entities. merge_key x = merge_key m \<longrightarrow>
           tier (confidence x) \<le> tier (confidence m)))"
proof (cases "entities = []")
  case True
  then show ?thesis by (simp add: mergeEntities_def)
next
  case False
  let ?g = "group_entities entities"
  have ok: "groups_ok ?g" and mem: "group_members ?g = set entities"
    using group_entities_props [of entities] by simp_all
  from ok have ne: "\<forall>p \<in> set ?g. snd p \<noteq> []" by (simp add: groups_ok_def)
  from merge_groups_props [OF ne] obtain merged where
    m: "merge_groups ?g = Inr merged" "length merged = length ?g"
    and best: "\<forall>i < length ?g. merged ! i \<in> set (snd (?g ! i)) \<and>
        (\<forall>x \<in> set (snd (?g ! i)). confidenceToScore (confidence x) \<le> confidenceToScore (confidence (merged ! i)))"
    by blast
  have key: "merge_key (merged ! i) = fst (?g ! i)" if "i < length ?g" for i
  proof -
    from that have "?g ! i \<in> set ?g" by simp
    with ok best that show ?thesis by (simp add: groups_ok_def)
  qed
  have keys: "map merge_key merged = map fst ?g"
    by (rule nth_equalityI) (simp_all add: m(2) key)
  have dist: "distinct (map merge_key merged)"
    using ok keys by (simp add: groups_ok_def)
  have in_group: "\<exists>j < length ?g. x \<in> set (snd (?g ! j))" if "x \<in> set entities" for x
  proof -
    from that mem have "x \<in> (\<Union>p \<in> set ?g. set (snd p))"
      by (simp add: group_members_def)
    then obtain p where "p \<in> set ?g" "x \<in> set (snd p)" by blast
    then show ?thesis by (auto simp: in_set_conv_nth)
  qed
  have group_key: "merge_key x = fst (?g ! j)" if "j < length ?g" "x \<in> set (snd (?g ! j))" for x j
  proof -
    from that have "?g ! j \<in> set ?g" by simp
    with ok that show ?thesis by (simp add: groups_ok_def)
  qed
  have sub: "x \<in> set entities" if "j < length ?g" "x \<in> set (snd (?g ! j))" for x j
  proof -
    from that have "?g ! j \<in> set ?g" by simp
    with that have "x \<in> group_members ?g" by (auto simp: group_members_def)
    with mem show ?thesis by simp
  qed
  have keyset: "merge_key ` set merged = merge_key ` set entities"
  proof
    show "merge_key ` set merged \<subseteq> merge_key ` set entities"
    proof
      fix k assume "k \<in> merge_key ` set merged"
      then obtain i where i: "i < length merged" "k = merge_key (merged ! i)"
        by (auto simp: in_set_conv_nth)
      with best m(2) have "merged ! i \<in> set (snd (?g ! i))" by simp
      with sub [of i] i m(2) show "k \<in> merge_key ` set entities" by auto
    qed
  next
    show "merge_key ` set entities \<subseteq> merge_key ` set merged"
    proof
      fix k assume "k \<in> merge_key ` set entities"
      then obtain x where x: "x \<in> set entities" "k = merge_key x" by auto
      from in_group [OF x(1)] obtain j where j: "j < length ?g" "x \<in> set (snd (?g ! j))" by blast
      with group_key have "merge_key x = fst (?g ! j)" by simp
      with key [OF j(1)] have "merge_key x = merge_key (merged ! j)" by simp
      moreover from j m(2) have "merged ! j \<in> set merged" by simp
      ultimately show "k \<in> merge_key ` set merged" using x(2) by auto
    qed
  qed
  have maxi: "m \<in> set entities \<and>
        (\<forall>x \<in> set entities. merge_key x = merge_key m \<longrightarrow> tier (confidence x) \<le> tier (confidence m))"
    if "m \<in> set merged" for m
  proof -
    from that obtain i where i: "i < length ?g" "m = merged ! i"
      using m(2) by (auto simp: in_set_conv_nth)
    with best have mi: "m \<in> set (snd (?g ! i))" by simp
    with sub i have "m \<in> set entities" by simp
    moreover have "tier (confidence x) \<le> tier (confidence m)"
      if x: "x \<in> set entities" "merge_key x = merge_key m" for x
    proof -
      from in_group [OF x(1)] obtain j where j: "j < length ?g" "x \<in> set (snd (?g ! j))" by blast
      with group_key have "fst (?g ! j) = merge_key x" by simp
      also have "\<dots> = fst (?g ! i)" using x(2) key [OF i(1)] i(2) by simp
      finally have eq: "map fst ?g ! j = map fst ?g ! i" using i(1) j(1) by simp
      from ok have "distinct (map fst ?g)" by (simp add: groups_ok_def)
      then have "(map fst ?g ! j = map fst ?g ! i) = (j = i)"
        by (rule nth_eq_iff_index_eq) (simp_all add: i(1) j(1))
      with eq have "j = i" by blast
      with j best i have "confidenceToScore (confidence x) \<le> confidenceToScore (confidence m)" by simp
      then show ?thesis by (simp add: confidenceToScore_tier)
    qed
    ultimately show ?thesis by blast
  qed
  from False m(1) have "mergeEntities entities = Inr merged" by (simp add: mergeEntities_def)
  with dist keyset maxi show ?thesis by blast
qed

text \<open>
  C7. For every entity list, \<^verbatim>\<open>mergeEntities\<close> returns (without raising) a list with
  exactly one entity for each key \<^verbatim>\<open>(entityType, value.lower())\<close> of the input: the keys of
  the result are distinct and are the keys of the input, and each returned entity is a
  member of the input whose confidence is maximal, under HIGH > MEDIUM > LOW > UNKNOWN,
  among the input entities of its type whose value has the same lower case.
\<close>

theorem mergeEntities_one_best_per_group:
  "\<exists>merged. mergeEntities entities = Inr merged \<and>
     distinct (map (\<lambda>e. (entityType e, py_lower (valueText e))) merged) \<and>
     (\<lambda>e. (entityType e, py_lower (valueText e))) ` set merged =
       (\<lambda>e. (entityType e, py_lower (valueText e))) ` set entities \<and>
     (\<forall>m \<in> set merged. m \<in> set entities \<and>
        (\<forall>x \<in> set entities.
           entityType x = entityType m \<and> py_lower (valueText x) = py_lower (valueText m) \<longrightarrow>
           tier (confidence x) \<le> tier (confidence m)))"
proof -
  have key: "merge_key = (\<lambda>e. (entityType e, py_lower (valueText e)))"
    by (rule ext) (simp add: merge_key_def)
  from mergeEntities_props [of entities] obtain merged where
    m: "mergeEntities entities = Inr merged"
       "distinct (map merge_key merged)"
       "merge_key ` set merged = merge_key ` set entities"
       "\<forall>m \<in> set merged. m \<in> set entities \<and>
          (\<forall>x \<in> set entities. merge_key x = merge_key m \<longrightarrow>
             tier (confidence x) \<le> tier (confidence m))"
    by blast
  from m(4) have best: "\<forall>m \<in> set merged. m \<in> set entities \<and>
        (\<forall>x \<in> set entities.
           entityType x = entityType m \<and> py_lower (valueText x) = py_lower (valueText m) \<longrightarrow>
           tier (confidence x) \<le> tier (confidence m))"
    by (simp add: merge_key_def)
  from m(1) m(2) m(3) best show ?thesis unfolding key by blast
qed

theorem mergeEntities_one_best_per_group_witness:
  "mergeEntities
     [\<lparr> entityType = PERSON, valueText = ''Ann Lee'', confidence = LOW,
        startPosition = 0, endPosition = 7, originalText = ''Ann Lee'' \<rparr>,
      \<lparr> entityType = DATE, valueText = ''5/6/2025'', confidence = MEDIUM,
        startPosition = 20, endPosition = 28, originalText = ''5/6/2025'' \<rparr>,
      \<lparr> entityType = PERSON, valueText = ''ANN LEE'', confidence = HIGH,
        startPosition = 30, endPosition = 37, originalText = ''ANN LEE'' \<rparr>,
      \<lparr> entityType = PERSON, valueText = ''Bob Ray'', confidence = MEDIUM,
        startPosition = 38, endPosition = 45, originalText = ''Bob Ray'' \<rparr>,
      \<lparr> entityType = PERSON, valueText = ''ann lee'', confidence = HIGH,
        startPosition = 50, endPosition = 57, originalText = ''ann lee'' \<rparr>,
      \<lparr> entityType = LOCATION, valueText = [CHR ''C'', CHR ''A'', CHR ''F'', CHR 0xC9], confidence = LOW,
        startPosition = 60, endPosition = 64, originalText = [] \<rparr>,
      \<lparr> entityType = LOCATION, valueText = [CHR ''c'', CHR ''a'', CHR ''f'', CHR 0xE9], confidence = HIGH,
        startPosition = 70, endPosition = 74, originalText = [] \<rparr>,
      \<lparr> entityType = LOCATION, valueText = ''Ann Lee'', confidence = UNKNOWN,
        startPosition = 80, endPosition = 87, originalText = [] \<rparr>]
   = Inr [\<lparr> entityType = PERSON, valueText = ''ANN LEE'', confidence = HIGH,
        startPosition = 30, endPosition = 37, originalText = ''ANN LEE'' \<rparr>,
      \<lparr> entityType = DATE, valueText = ''5/6/2025'', confidence = MEDIUM,
        startPosition = 20, endPosition = 28, originalText = ''5/6/2025'' \<rparr>,
      \<lparr> entityType = PERSON, valueText = ''Bob Ray'', confidence = MEDIUM,
        startPosition = 38, endPosition = 45, originalText = ''Bob Ray'' \<rparr>,
      \<lparr> entityType = LOCATION, valueText = [CHR ''c'', CHR ''a'', CHR ''f'', CHR 0xE9], confidence = HIGH,
        startPosition = 70, endPosition = 74, originalText = [] \<rparr>,
      \<lparr> entityType = LOCATION, valueText = ''Ann Lee'', confidence = UNKNOWN,
        startPosition = 80, endPosition = 87, originalText = [] \<rparr>]
   \<and> distinct (map (\<lambda>e. (entityType e, py_lower (valueText e)))
       [\<lparr> entityType = PERSON, valueText = ''ANN LEE'', confidence = HIGH,
        startPosition = 30, endPosition = 37, originalText = ''ANN LEE'' \<rparr>,
      \<lparr> entityType = DATE, valueText = ''5/6/2025'', confidence = MEDIUM,
        startPosition = 20, endPosition = 28, originalText = ''5/6/2025'' \<rparr>,
      \<lparr> entityType = PERSON, valueText = ''Bob Ray'', confidence = MEDIUM,
        startPosition = 38, endPosition = 45, originalText = ''Bob Ray'' \<rparr>,
      \<lparr> entityType = LOCATION, valueText = [CHR ''c'', CHR ''a'', CHR ''f'', CHR 0xE9], confidence = HIGH,
        startPosition = 70, endPosition = 74, originalText = [] \<rparr>,
      \<lparr> entityType = LOCATION, valueText = ''Ann Lee'', confidence = UNKNOWN,
        startPosition = 80, endPosition = 87, originalText = [] \<rparr>])
   \<and> py_lower [CHR ''C'', CHR ''A'', CHR ''F'', CHR 0xC9] = [CHR ''c'', CHR ''a'', CHR ''f'', CHR 0xE9]"
proof -
  let ?X = "[\<lparr> entityType = PERSON, valueText = ''Ann Lee'', confidence = LOW,
        startPosition = 0, endPosition = 7, originalText = ''Ann Lee'' \<rparr>,
      \<lparr> entityType = DATE, valueText = ''5/6/2025'', confidence = MEDIUM,
        startPosition = 20, endPosition = 28, originalText = ''5/6/2025'' \<rparr>,
      \<lparr> entityType = PERSON, valueText = ''ANN LEE'', confidence = HIGH,
        startPosition = 30, endPosition = 37, originalText = ''ANN LEE'' \<rparr>,
      \<lparr> entityType = PERSON, valueText = ''Bob Ray'', confidence = MEDIUM,
        startPosition = 38, endPosition = 45, originalText = ''Bob Ray'' \<rparr>,
      \<lparr> entityType = PERSON, valueText = ''ann lee'', confidence = HIGH,
        startPosition = 50, endPosition = 57, originalText = ''ann lee'' \<rparr>,
      \<lparr> entityType = LOCATION, valueText = [CHR ''C'', CHR ''A'', CHR ''F'', CHR 0xC9], confidence = LOW,
        startPosition = 60, endPosition = 64, originalText = [] \<rparr>,
      \<lparr> entityType = LOCATION, valueText = [CHR ''c'', CHR ''a'', CHR ''f'', CHR 0xE9], confidence = HIGH,
        startPosition = 70, endPosition = 74, originalText = [] \<rparr>,
      \<lparr> entityType = LOCATION, valueText = ''Ann Lee'', confidence = UNKNOWN,
        startPosition = 80, endPosition = 87, originalText = [] \<rparr>]"
  let ?Y = "[\<lparr> entityType = PERSON, valueText = ''ANN LEE'', confidence = HIGH,
        startPosition = 30, endPosition = 37, originalText = ''ANN LEE'' \<rparr>,
      \<lparr> entityType = DATE, valueText = ''5/6/2025'', confidence = MEDIUM,
        startPosition = 20, endPosition = 28, originalText = ''5/6/2025'' \<rparr>,
      \<lparr> entityType = PERSON, valueText = ''Bob Ray'', confidence = MEDIUM,
        startPosition = 38, endPosition = 45, originalText = ''Bob Ray'' \<rparr>,
      \<lparr> entityType = LOCATION, valueText = [CHR ''c'', CHR ''a'', CHR ''f'', CHR 0xE9], confidence = HIGH,
        startPosition = 70, endPosition = 74, originalText = [] \<rparr>,
      \<lparr> entityType = LOCATION, valueText = ''Ann Lee'', confidence = UNKNOWN,
        startPosition = 80, endPosition = 87, originalText = [] \<rparr>]"
  have ev: "mergeEntities ?X = Inr ?Y" by code_simp
  have lo: "py_lower [CHR ''C'', CHR ''A'', CHR ''F'', CHR 0xC9] = [CHR ''c'', CHR ''a'', CHR ''f'', CHR 0xE9]"
    by code_simp
  from mergeEntities_one_best_per_group [of ?X] obtain merged where
    "mergeEntities ?X = Inr merged"
    "distinct (map (\<lambda>e. (entityType e, py_lower (valueText e))) merged)"
    by blast
  with ev have "distinct (map (\<lambda>e. (entityType e, py_lower (valueText e))) ?Y)" by simp
  with ev lo show ?thesis by blast
qed

section \<open>Properties of the confidence aggregator\<close>

lemma confidenceValues_tier: "confidenceValues c = int (tier c)"
  by (cases c) simp_all

lemma sum_confidenceValues:
  "sum_list (map (\<lambda>entity. confidenceValues (confidence entity)) es) =
   int (sum_list (map (\<lambda>e. tier (confidence e)) es))"
  by (induction es) (simp_all add: confidenceValues_tier)

lemma filledFields_count:
  "(if truthy a then 1 else 0) + (if truthy b then 1 else 0) + (if truthy c then 1 else 0) +
   (if truthy d then (1::int) else 0) = int (length (filter truthy [a, b, c, d]))"
  by simp

text \<open>
  C3, as stated: for every record the overall confidence is the first matching row of
  the decision table over the filled-field count and the mean entity score, whose
  fourth row gives LOW as soon as one field is filled. The aggregator returns UNKNOWN
  for every record without entities before it looks at the fields: on the record
  below, with one field filled and no entity, the table gives LOW and the code UNKNOWN.
\<close>

theorem overall_confidence_empty_counterexample:
  "calculateOverallConfidence
     \<lparr> participantName = Some ''Ann Lee'', eventName = None, location = None, date = None,
       extractedEntities = [],
       extractionTimestamp = \<lparr> year = 2025, month = 3, day = 15, hour = 0, minute = 0,
                               second = 0, microsecond = 0 \<rparr>,
       sourceText = ''Name: Ann Lee'', overallConfidence = UNKNOWN \<rparr>
   \<noteq> spec_decision_table
       (spec_filledCount
          \<lparr> participantName = Some ''Ann Lee'', eventName = None, location = None, date = None,
            extractedEntities = [],
            extractionTimestamp = \<lparr> year = 2025, month = 3, day = 15, hour = 0, minute = 0,
                                    second = 0, microsecond = 0 \<rparr>,
            sourceText = ''Name: Ann Lee'', overallConfidence = UNKNOWN \<rparr>)
       (spec_meanEntityScore [])"
  by code_simp

text \<open>
  C3, amended. For every record with a non-empty entity list, the overall confidence is
  the first matching row of: filledCount = 4 and mean \<ge> 2.5 gives HIGH; filledCount \<ge> 3
  and mean \<ge> 2.0 gives HIGH; filledCount \<ge> 2 and mean \<ge> 1.5 gives MEDIUM; filledCount \<ge> 1
  gives LOW; otherwise UNKNOWN; where filledCount is the number of the four fields that
  are non-empty and mean is the mean of HIGH:3, MEDIUM:2, LOW:1, UNKNOWN:0 over all
  entities of the record. For a record with an empty entity list the overall confidence
  is UNKNOWN whatever its fields.
\<close>

theorem overall_confidence_table:
  "(extractedEntities info \<noteq> [] \<longrightarrow>
      calculateOverallConfidence info =
        spec_decision_table (spec_filledCount info) (spec_meanEntityScore (extractedEntities info)))
   \<and> (extractedEntities info = [] \<longrightarrow> calculateOverallConfidence info = UNKNOWN)"
proof -
  have "calculateOverallConfidence info =
        spec_decision_table (spec_filledCount info) (spec_meanEntityScore (extractedEntities info))"
    if ne: "extractedEntities info \<noteq> []"
  proof -
    let ?n = "length (filter truthy [participantName info, eventName info, location info, date info])"
    let ?m = "spec_meanEntityScore (extractedEntities info)"
    have m: "rat_of_int (sum_list (map (\<lambda>entity. confidenceValues (confidence entity)) (extractedEntities info)))
             / rat_of_int (int (length (extractedEntities info))) = ?m"
      using ne by (simp add: spec_meanEntityScore_def sum_confidenceValues)
    have "calculateOverallConfidence info =
       (if int ?n = 4 \<and> ?m \<ge> 5 / 2 then HIGH
        else if int ?n \<ge> 3 \<and> ?m \<ge> 2 then HIGH
        else if int ?n \<ge> 2 \<and> ?m \<ge> 3 / 2 then MEDIUM
        else if int ?n \<ge> 1 then LOW else UNKNOWN)"
      unfolding calculateOverallConfidence_def Let_def filledFields_count m
      using ne by simp
    also have "\<dots> = spec_decision_table ?n ?m"
      unfolding spec_decision_table_def by simp
    finally show ?thesis by (simp add: spec_filledCount_def)
  qed
  moreover have "calculateOverallConfidence info = UNKNOWN" if "extractedEntities info = []"
    using that by (simp add: calculateOverallConfidence_def)
  ultimately show ?thesis by blast
qed

theorem overall_confidence_table_witness:
  "calculateOverallConfidence
     \<lparr> participantName = Some ''Ann Lee'', eventName = Some ''Data Summit'',
       location = Some ''Rome'', date = Some ''5/6/2025'',
       extractedEntities =
         [\<lparr> entityType = PERSON, valueText = ''Ann Lee'', confidence = HIGH,
            startPosition = 0, endPosition = 7, originalText = ''Ann Lee'' \<rparr>,
          \<lparr> entityType = DATE, valueText = ''5/6/2025'', confidence = MEDIUM,
            startPosition = 20, endPosition = 28, originalText = ''5/6/2025'' \<rparr>],
       extractionTimestamp = \<lparr> year = 2025, month = 3, day = 15, hour = 0, minute = 0,
                               second = 0, microsecond = 0 \<rparr>,
       sourceText = ''Ann Lee'', overallConfidence = UNKNOWN \<rparr> = HIGH
   \<and> spec_decision_table 4 (5 / 2) = HIGH
   \<and> calculateOverallConfidence
     \<lparr> participantName = Some ''Ann Lee'', eventName = None, location = None, date = None,
       extractedEntities = [],
       extractionTimestamp = \<lparr> year = 2025, month = 3, day = 15, hour = 0, minute = 0,
                               second = 0, microsecond = 0 \<rparr>,
       sourceText = ''Name: Ann Lee'', overallConfidence = UNKNOWN \<rparr> = UNKNOWN"
proof -
  let ?a = "\<lparr> participantName = Some ''Ann Lee'', eventName = Some ''Data Summit'',
       location = Some ''Rome'', date = Some ''5/6/2025'',
       extractedEntities =
         [\<lparr> entityType = PERSON, valueText = ''Ann Lee'', confidence = HIGH,
            startPosition = 0, endPosition = 7, originalText = ''Ann Lee'' \<rparr>,
          \<lparr> entityType = DATE, valueText = ''5/6/2025'', confidence = MEDIUM,
            startPosition = 20, endPosition = 28, originalText = ''5/6/2025'' \<rparr>],
       extractionTimestamp = \<lparr> year = 2025, month = 3, day = 15, hour = 0, minute = 0,
                               second = 0, microsecond = 0 \<rparr>,
       sourceText = ''Ann Lee'', overallConfidence = UNKNOWN \<rparr>"
  let ?b = "\<lparr> participantName = Some ''Ann Lee'', eventName = None, location = None, date = None,
       extractedEntities = [],
       extractionTimestamp = \<lparr> year = 2025, month = 3, day = 15, hour = 0, minute = 0,
                               second = 0, microsecond = 0 \<rparr>,
       sourceText = ''Name: Ann Lee'', overallConfidence = UNKNOWN \<rparr>"
  have ne: "extractedEntities ?a \<noteq> []" by simp
  have fc: "spec_filledCount ?a = 4" by code_simp
  have mn: "spec_meanEntityScore (extractedEntities ?a) = 5 / 2" by code_simp
  have tab: "spec_decision_table 4 (5 / 2) = HIGH" by code_simp
  from overall_confidence_table [of ?a] ne
  have "calculateOverallConfidence ?a =
        spec_decision_table (spec_filledCount ?a) (spec_meanEntityScore (extractedEntities ?a))"
    by blast
  then have a: "calculateOverallConfidence ?a = HIGH"
    unfolding fc mn tab .
  have "extractedEntities ?b = []" by simp
  with overall_confidence_table [of ?b] have b: "calculateOverallConfidence ?b = UNKNOWN"
    by blast
  from a tab b show ?thesis by blast
qed

section \<open>Properties of the matcher\<close>

text \<open>
  A match only moves forward in the text and only adds spans of groups; a pattern that
  closes the group \<open>i\<close> on each of its paths leaves a span for \<open>i\<close> in every state it
  hands to its continuation.
\<close>

lemma reaches_refl: "reaches st st"
  by (simp add: reaches_def)

lemma reaches_trans: "reaches a b \<Longrightarrow> reaches b c \<Longrightarrow> reaches a c"
  by (auto simp: reaches_def)

lemma reaches_advance: "reaches (MState p s n g) (MState p' s' (n + 1) g)"
  by (simp add: reaches_def has_group_def)

lemma lit_match_reaches: "lit_match ic t st = Some st' \<Longrightarrow> reaches st st'"
proof (induction ic t st rule: lit_match.induct)
  case (1 ic st)
  then show ?case by (simp add: reaches_refl)
next
  case (2 ic x xs p n g)
  then show ?case by simp
next
  case (3 ic x xs p c cs n g)
  then show ?case
    by (auto split: if_splits intro: reaches_trans [OF reaches_advance])
qed

lemma star_g_reaches:
  assumes f: "\<And>st k res. f st k = Some res \<Longrightarrow> \<exists>st'. k st' = Some res \<and> reaches st st'"
  shows "star_g fuel f st k = Some res \<Longrightarrow> \<exists>st'. k st' = Some res \<and> reaches st st'"
proof (induction fuel arbitrary: st)
  case Nil
  then show ?case by (cases st) (auto intro: reaches_refl)
next
  case (Cons x fuel)
  obtain p s n g where st: "st = MState p s n g" by (cases st)
  let ?k = "\<lambda>st'. if n < m_pos st' then star_g fuel f st' k else None"
  show ?case
  proof (cases "f st ?k")
    case None
    with Cons.prems st have "k st = Some res" by simp
    then show ?thesis by (auto intro: reaches_refl)
  next
    case (Some r)
    with Cons.prems st have "f st ?k = Some res" by simp
    from f [OF this] obtain st1 where st1: "?k st1 = Some res" "reaches st st1" by blast
    then have "star_g fuel f st1 k = Some res" by (simp split: if_splits)
    from Cons.IH [OF this] obtain st' where "k st' = Some res" "reaches st1 st'" by blast
    with st1 show ?thesis by (blast intro: reaches_trans)
  qed
qed

lemma star_l_reaches:
  assumes f: "\<And>st k res. f st k = Some res \<Longrightarrow> \<exists>st'. k st' = Some res \<and> reaches st st'"
  shows "star_l fuel f st k = Some res \<Longrightarrow> \<exists>st'. k st' = Some res \<and> reaches st st'"
proof (induction fuel arbitrary: st)
  case Nil
  then show ?case by (cases st) (auto intro: reaches_refl)
next
  case (Cons x fuel)
  obtain p s n g where st: "st = MState p s n g" by (cases st)
  let ?k = "\<lambda>st'. if n < m_pos st' then star_l fuel f st' k else None"
  show ?case
  proof (cases "k st")
    case (Some r)
    with Cons.prems st have "k st = Some res" by simp
    then show ?thesis by (auto intro: reaches_refl)
  next
    case None
    with Cons.prems st have "f st ?k = Some res" by simp
    from f [OF this] obtain st1 where st1: "?k st1 = Some res" "reaches st st1" by blast
    then have "star_l fuel f st1 k = Some res" by (simp split: if_splits)
    from Cons.IH [OF this] obtain st' where "k st' = Some res" "reaches st1 st'" by blast
    with st1 show ?thesis by (blast intro: reaches_trans)
  qed
qed

lemma rmatch_reaches:
  "rmatch ic r st k = Some res \<Longrightarrow>
   \<exists>st'. k st' = Some res \<and> reaches st st' \<and> (sets_group i r \<longrightarrow> has_group i st')"
proof (induction r arbitrary: st k res)
  case (Lit t)
  obtain p s n g where st: "st = MState p s n g" by (cases st)
  from Lit show ?case unfolding st by (auto split: option.splits dest: lit_match_reaches)
next
  case (Chars neg items)
  obtain p s n g where st: "st = MState p s n g" by (cases st)
  from Chars show ?case unfolding st
    by (cases s) (auto split: if_splits intro: reaches_advance)
next
  case AnyChar
  obtain p s n g where st: "st = MState p s n g" by (cases st)
  from AnyChar show ?case unfolding st
    by (cases s) (auto split: if_splits intro: reaches_advance)
next
  case Eps
  obtain p s n g where st: "st = MState p s n g" by (cases st)
  from Eps show ?case unfolding st by (auto intro: reaches_refl)
next
  case (Seq a b)
  obtain p s n g where st: "st = MState p s n g" by (cases st)
  from Seq.prems have "rmatch ic a st (\<lambda>st'. rmatch ic b st' k) = Some res" by (simp add: st)
  from Seq.IH(1) [OF this] obtain st1 where
    st1: "rmatch ic b st1 k = Some res" "reaches st st1" "sets_group i a \<longrightarrow> has_group i st1"
    by blast
  from Seq.IH(2) [OF st1(1)] obtain st' where
    st': "k st' = Some res" "reaches st1 st'" "sets_group i b \<longrightarrow> has_group i st'"
    by blast
  from st1 st' have "reaches st st'" by (blast intro: reaches_trans)
  moreover from st1(3) st'(2,3) have "sets_group i (Seq a b) \<longrightarrow> has_group i st'"
    by (auto simp: reaches_def)
  ultimately show ?case using st'(1) by blast
next
  case (Alt a b)
  obtain p s n g where st: "st = MState p s n g" by (cases st)
  show ?case
  proof (cases "rmatch ic a st k")
    case None
    with Alt.prems have "rmatch ic b st k = Some res" by (simp add: st)
    from Alt.IH(2) [OF this] show ?thesis by auto
  next
    case (Some x)
    with Alt.prems have "rmatch ic a st k = Some res" by (simp add: st)
    from Alt.IH(1) [OF this] show ?thesis by auto
  qed
next
  case (Star r)
  obtain p s n g where st: "st = MState p s n g" by (cases st)
  have f: "\<exists>st'. k st' = Some res \<and> reaches st st'" if "rmatch ic r st k = Some res"
    for st and k :: "mstate \<Rightarrow> 'a option" and res
    using Star.IH [OF that] by blast
  from Star.prems have "star_g s (rmatch ic r) st k = Some res" by (simp add: st)
  from star_g_reaches [of "rmatch ic r", OF f this] show ?case by simp
next
  case (LazyStar r)
  obtain p s n g where st: "st = MState p s n g" by (cases st)
  have f: "\<exists>st'. k st' = Some res \<and> reaches st st'" if "rmatch ic r st k = Some res"
    for st and k :: "mstate \<Rightarrow> 'a option" and res
    using LazyStar.IH [OF that] by blast
  from LazyStar.prems have "star_l s (rmatch ic r) st k = Some res" by (simp add: st)
  from star_l_reaches [of "rmatch ic r", OF f this] show ?case by simp
next
  case (Group j r)
  obtain p s n g where st: "st = MState p s n g" by (cases st)
  let ?k = "\<lambda>st'. k (MState (m_prev st') (m_rest st') (m_pos st') ((j, n, m_pos st') # m_groups st'))"
  from Group.prems have "rmatch ic r st ?k = Some res" by (simp add: st)
  from Group.IH [OF this] obtain st1 where
    st1: "?k st1 = Some res" "reaches st st1" "sets_group i r \<longrightarrow> has_group i st1" by blast
  let ?st' = "MState (m_prev st1) (m_rest st1) (m_pos st1) ((j, n, m_pos st1) # m_groups st1)"
  have "reaches st1 ?st'" by (simp add: reaches_def has_group_def)
  with st1(2) have "reaches st ?st'" by (rule reaches_trans)
  moreover have "sets_group i (Group j r) \<longrightarrow> has_group i ?st'"
    using st1(3) by (auto simp: has_group_def)
  ultimately show ?case using st1(1) by blast
next
  case Bol
  obtain p s n g where st: "st = MState p s n g" by (cases st)
  from Bol show ?case unfolding st by (auto split: if_splits intro: reaches_refl)
next
  case Eol
  obtain p s n g where st: "st = MState p s n g" by (cases st)
  from Eol show ?case unfolding st by (auto split: if_splits intro: reaches_refl)
next
  case WordB
  obtain p s n g where st: "st = MState p s n g" by (cases st)
  from WordB show ?case unfolding st by (auto split: if_splits intro: reaches_refl)
qed

lemma attempt_props:
  assumes "attempt ic r p s n reject = Some st"
  shows "n \<le> m_pos st \<and> (sets_group i r \<longrightarrow> has_group i st)"
proof -
  let ?st0 = "MState p s n []"
  from assms have "rmatch ic r ?st0 (\<lambda>st. if reject \<and> m_pos st = n then None else Some st) = Some st"
    by (simp add: attempt_def)
  from rmatch_reaches [OF this, of i] obtain st' where
    "(if reject \<and> m_pos st' = n then None else Some st') = Some st" "reaches ?st0 st'"
    "sets_group i r \<longrightarrow> has_group i st'" by blast
  then show ?thesis by (auto simp: reaches_def split: if_splits)
qed

lemma search_from_props:
  "search_from ic r p s n = Some m \<Longrightarrow>
   n \<le> m_start m \<and> m_start m \<le> m_end m \<and> (sets_group i r \<longrightarrow> i \<in> fst ` set (m_spans m))"
proof (induction s arbitrary: p n)
  case Nil
  then obtain st where "attempt ic r p [] n False = Some st" "m = mk_match n st" by auto
  with attempt_props [of ic r p "[]" n False st i] show ?case
    by (simp add: mk_match_def has_group_def)
next
  case (Cons c cs)
  show ?case
  proof (cases "attempt ic r p (c # cs) n False")
    case None
    with Cons.prems have "search_from ic r (Some c) cs (n + 1) = Some m" by simp
    from Cons.IH [OF this] show ?thesis by simp
  next
    case (Some st)
    with Cons.prems have "m = mk_match n st" by simp
    with attempt_props [OF Some, of i] show ?thesis
      by (simp add: mk_match_def has_group_def)
  qed
qed

lemma m_group_Some:
  assumes "re_search ic r s = Some m" and "sets_group i r"
  shows "\<exists>g. m_group s m i = Some g"
proof -
  from assms search_from_props [of ic r None s 0 m i] have "i \<in> fst ` set (m_spans m)"
    by (simp add: re_search_def)
  then have "map_of (m_spans m) i \<noteq> None" by (simp add: map_of_eq_None_iff)
  then show ?thesis by (auto simp: m_group_def m_span_def)
qed

lemma fallback_search_total:
  "\<forall>pattern \<in> set patterns. sets_group 1 pattern \<Longrightarrow>
   \<exists>result. fallback_search ic tidy valid format patterns text = Inr result"
proof (induction patterns)
  case Nil
  then show ?case by simp
next
  case (Cons pattern patterns)
  then obtain result where rest: "fallback_search ic tidy valid format patterns text = Inr result"
    by auto
  show ?case
  proof (cases "re_search ic pattern text")
    case None
    with rest show ?thesis by simp
  next
    case (Some m)
    from Cons.prems have "sets_group 1 pattern" by simp
    from m_group_Some [OF Some this] obtain g where "m_group text m 1 = Some g" by blast
    with Some rest show ?thesis by simp
  qed
qed

section \<open>Properties of the fallback pass\<close>

lemma fallback_patterns_set_group:
  "list_all (sets_group 1) nameFallbackPatterns"
  "list_all (sets_group 1) eventFallbackPatterns"
  "list_all (sets_group 1) locationFallbackPatterns"
  "list_all (sets_group 1) dateFallbackPatterns"
  by code_simp+

text \<open>No fallback method raises: \<^verbatim>\<open>match.group(1)\<close> is a string whenever a pattern matches.\<close>

lemma fallbacks_total:
  "\<exists>r. extractNameFallback text = Inr r"
  "\<exists>r. extractEventFallback text = Inr r"
  "\<exists>r. extractLocationFallback text = Inr r"
  "\<exists>r. extractDateFallback text = Inr r"
  unfolding extractNameFallback_def extractEventFallback_def extractLocationFallback_def
    extractDateFallback_def
  using fallback_patterns_set_group
  by (auto intro!: fallback_search_total simp: list_all_iff)

lemma truthy_iff: "truthy field \<longleftrightarrow> field \<noteq> None \<and> field \<noteq> Some []"
  by (cases field) (simp_all add: truthy_def)

lemma calculateOverallConfidence_frame [simp]:
  "calculateOverallConfidence (info\<lparr>overallConfidence := c\<rparr>) = calculateOverallConfidence info"
  by (simp add: calculateOverallConfidence_def)

text \<open>
  C8. For every record and original text (without the two characters U+00B5 and U+00FF,
  whose upper case is not a character of the model), \<^verbatim>\<open>_postProcessInformation\<close> returns
  (no fallback method raises) the record in which each of the four fields \<^verbatim>\<open>participantName\<close>,
  \<^verbatim>\<open>eventName\<close>, \<^verbatim>\<open>location\<close>, \<^verbatim>\<open>date\<close> that was set (neither \<^verbatim>\<open>None\<close> nor empty) has
  the value it had, and each field that was not set has the result of its own fallback
  method on the original text; the entity list, the time stamp and the source text are
  unchanged, and the overall confidence is recomputed from the resulting record. So the
  fallback pass assigns only the fields that the primary pass left unset.
\<close>

theorem postProcess_keeps_set_fields:
  "upper_closed text \<Longrightarrow>
   \<exists>name event loc d info'.
     extractNameFallback text = Inr name \<and> extractEventFallback text = Inr event \<and>
     extractLocationFallback text = Inr loc \<and> extractDateFallback text = Inr d \<and>
     postProcessInformation info text = Inr info' \<and>
     participantName info' =
       (if participantName info \<noteq> None \<and> participantName info \<noteq> Some [] then participantName info
        else name) \<and>
     eventName info' =
       (if eventName info \<noteq> None \<and> eventName info \<noteq> Some [] then eventName info else event) \<and>
     location info' =
       (if location info \<noteq> None \<and> location info \<noteq> Some [] then location info else loc) \<and>
     date info' = (if date info \<noteq> None \<and> date info \<noteq> Some [] then date info else d) \<and>
     extractedEntities info' = extractedEntities info \<and>
     extractionTimestamp info' = extractionTimestamp info \<and>
     sourceText info' = sourceText info \<and>
     overallConfidence info' = calculateOverallConfidence info'"
proof -
  from fallbacks_total [of "text"] obtain name event loc d where
    fb: "extractNameFallback text = Inr name" "extractEventFallback text = Inr event"
        "extractLocationFallback text = Inr loc" "extractDateFallback text = Inr d"
    by blast
  let ?n = "if participantName info \<noteq> None \<and> participantName info \<noteq> Some [] then participantName info else name"
  let ?e = "if eventName info \<noteq> None \<and> eventName info \<noteq> Some [] then eventName info else event"
  let ?l = "if location info \<noteq> None \<and> location info \<noteq> Some [] then location info else loc"
  let ?d = "if date info \<noteq> None \<and> date info \<noteq> Some [] then date info else d"
  have n: "fill_if_unset (participantName info) (extractNameFallback text) = Inr ?n"
    by (simp add: fill_if_unset_def truthy_iff fb)
  have e: "fill_if_unset (eventName info) (extractEventFallback text) = Inr ?e"
    by (simp add: fill_if_unset_def truthy_iff fb)
  have l: "fill_if_unset (location info) (extractLocationFallback text) = Inr ?l"
    by (simp add: fill_if_unset_def truthy_iff fb)
  have d: "fill_if_unset (date info) (extractDateFallback text) = Inr ?d"
    by (simp add: fill_if_unset_def truthy_iff fb)
  let ?i = "info\<lparr>participantName := ?n, eventName := ?e, location := ?l, date := ?d\<rparr>"
  let ?r = "?i\<lparr>overallConfidence := calculateOverallConfidence ?i\<rparr>"
  have r: "postProcessInformation info text = Inr ?r"
    unfolding postProcessInformation_def n e l d by (simp add: Let_def)
  have "participantName ?r = ?n" "eventName ?r = ?e" "location ?r = ?l" "date ?r = ?d"
    "extractedEntities ?r = extractedEntities info"
    "extractionTimestamp ?r = extractionTimestamp info"
    "sourceText ?r = sourceText info"
    "overallConfidence ?r = calculateOverallConfidence ?r"
    by simp_all
  with fb r show ?thesis by blast
qed

theorem postProcess_keeps_set_fields_witness:
  "postProcessInformation
     \<lparr> participantName = Some ''Ann Lee'', eventName = None, location = Some [], date = None,
       extractedEntities =
         [\<lparr> entityType = PERSON, valueText = ''Ann Lee'', confidence = HIGH,
            startPosition = 0, endPosition = 7, originalText = ''Ann Lee'' \<rparr>],
       extractionTimestamp = \<lparr> year = 2025, month = 3, day = 15, hour = 0, minute = 0,
                               second = 0, microsecond = 0 \<rparr>,
       sourceText = ''Ann Lee and name: Bob Ray, venue: Rome. date: 5/6/2025'',
       overallConfidence = LOW \<rparr>
     ''Ann Lee and name: Bob Ray, venue: Rome. date: 5/6/2025''
   = Inr \<lparr> participantName = Some ''Ann Lee'', eventName = None, location = Some ''Rome'',
           date = Some ''5/6/2025'',
           extractedEntities =
             [\<lparr> entityType = PERSON, valueText = ''Ann Lee'', confidence = HIGH,
                startPosition = 0, endPosition = 7, originalText = ''Ann Lee'' \<rparr>],
           extractionTimestamp = \<lparr> year = 2025, month = 3, day = 15, hour = 0, minute = 0,
                                   second = 0, microsecond = 0 \<rparr>,
           sourceText = ''Ann Lee and name: Bob Ray, venue: Rome. date: 5/6/2025'',
           overallConfidence = HIGH \<rparr>
   \<and> extractNameFallback ''Ann Lee and name: Bob Ray, venue: Rome. date: 5/6/2025'' = Inr (Some ''Bob Ray'')
   \<and> extractLocationFallback ''Ann Lee and name: Bob Ray, venue: Rome. date: 5/6/2025'' = Inr (Some ''Rome'')"
proof -
  let ?T = "''Ann Lee and name: Bob Ray, venue: Rome. date: 5/6/2025''"
  let ?I = "\<lparr> participantName = Some ''Ann Lee'', eventName = None, location = Some [], date = None,
       extractedEntities =
         [\<lparr> entityType = PERSON, valueText = ''Ann Lee'', confidence = HIGH,
            startPosition = 0, endPosition = 7, originalText = ''Ann Lee'' \<rparr>],
       extractionTimestamp = \<lparr> year = 2025, month = 3, day = 15, hour = 0, minute = 0,
                               second = 0, microsecond = 0 \<rparr>,
       sourceText = ?T, overallConfidence = LOW \<rparr>"
  let ?R = "\<lparr> participantName = Some ''Ann Lee'', eventName = None, location = Some ''Rome'',
           date = Some ''5/6/2025'',
           extractedEntities =
             [\<lparr> entityType = PERSON, valueText = ''Ann Lee'', confidence = HIGH,
                startPosition = 0, endPosition = 7, originalText = ''Ann Lee'' \<rparr>],
           extractionTimestamp = \<lparr> year = 2025, month = 3, day = 15, hour = 0, minute = 0,
                                   second = 0, microsecond = 0 \<rparr>,
           sourceText = ?T, overallConfidence = HIGH \<rparr>"
  have ev: "postProcessInformation ?I ?T = Inr ?R" by code_simp
  have fn: "extractNameFallback ?T = Inr (Some ''Bob Ray'')" by code_simp
  have fl: "extractLocationFallback ?T = Inr (Some ''Rome'')" by code_simp
  have uc: "upper_closed ?T" by code_simp
  from postProcess_keeps_set_fields [OF uc, of ?I] obtain name loc info' where
    "extractNameFallback ?T = Inr name" "extractLocationFallback ?T = Inr loc"
    "postProcessInformation ?I ?T = Inr info'"
    "participantName info' =
       (if participantName ?I \<noteq> None \<and> participantName ?I \<noteq> Some [] then participantName ?I else name)"
    "location info' =
       (if location ?I \<noteq> None \<and> location ?I \<noteq> Some [] then location ?I else loc)"
    by blast
  with ev fn fl have "participantName ?R = Some ''Ann Lee''" "location ?R = Some ''Rome''"
    by simp_all
  with ev fn fl show ?thesis by blast
qed

end
